theory Spec2Isabelle
  imports Complex_Main "HOL-Library.Sublist" "HOL-Library.List_Lexorder" "HOL-Library.Multiset"
begin

section \<open>Python values used by \<open>check_notebooks.py\<close>\<close>

subsection \<open>Strings\<close>

text \<open>
  A Python \<open>str\<close> is a sequence of Unicode code points; \<open>len\<close>, slicing, \<open>in\<close>,
  \<open>split\<close>, \<open>strip\<close> and \<open><\<close> all work on code points.  A string is therefore a list
  of code points (natural numbers), and \<open>lit\<close> turns an ASCII literal of the source into
  such a list.  Substring containment \<open>sub in s\<close> is \<^const>\<open>sublist\<close>, \<open>s.startswith(p)\<close>
  is \<^const>\<open>prefix\<close>, and \<open>s < t\<close> is the lexicographic order on lists.
\<close>

type_synonym ustring = "nat list"

definition lit :: "string \<Rightarrow> ustring" where
  "lit s = map of_char s"

text \<open>The code points for which \<open>str.isspace\<close> holds; \<open>str.strip()\<close> removes them
  from both ends.\<close>

definition isspace :: "nat \<Rightarrow> bool" where
  "isspace c \<longleftrightarrow>
     (9 \<le> c \<and> c \<le> 13) \<or> (28 \<le> c \<and> c \<le> 32) \<or> c = 133 \<or> c = 160 \<or> c = 5760 \<or>
     (8192 \<le> c \<and> c \<le> 8202) \<or> c = 8232 \<or> c = 8233 \<or> c = 8239 \<or> c = 8287 \<or> c = 12288"

definition strip :: "ustring \<Rightarrow> ustring" where
  "strip s = rev (dropWhile isspace (rev (dropWhile isspace s)))"

text \<open>\<open>s.split(sep)\<close> for a one-character separator: never empty, \<open>''.split(sep) == ['']\<close>.\<close>

fun str_split :: "nat \<Rightarrow> ustring \<Rightarrow> ustring list" where
  "str_split sep [] = [[]]"
| "str_split sep (c # cs) =
     (if c = sep then [] # str_split sep cs
      else (case str_split sep cs of [] \<Rightarrow> [[c]] | w # ws \<Rightarrow> (c # w) # ws))"

text \<open>\<open>sep.join(xs)\<close>.\<close>

fun str_join :: "ustring \<Rightarrow> ustring list \<Rightarrow> ustring" where
  "str_join sep [] = []"
| "str_join sep [x] = x"
| "str_join sep (x # y # ys) = x @ sep @ str_join sep (y # ys)"

text \<open>\<open>xs[lo:hi]\<close> for indices \<open>0 \<le> lo\<close>, \<open>0 \<le> hi\<close>: out-of-range bounds are clipped.\<close>

definition py_slice :: "nat \<Rightarrow> nat \<Rightarrow> 'a list \<Rightarrow> 'a list" where
  "py_slice lo hi xs = drop lo (take hi xs)"

text \<open>\<open>str(n)\<close> for a non-negative integer: its decimal digits.\<close>

function str_nat :: "nat \<Rightarrow> ustring" where
  "str_nat n = (if n < 10 then [48 + n] else str_nat (n div 10) @ [48 + n mod 10])"
  by pat_completeness auto
termination
  by (relation "measure id") auto

declare str_nat.simps [simp del]

definition newline :: nat where
  "newline = 10"

subsection \<open>Exceptions\<close>

datatype exn =
    FileNotFoundError
  | OSError
  | UnicodeDecodeError
  | UnicodeEncodeError
  | JSONDecodeError
  | AttributeError
  | TypeError
  | KeyError

subsection \<open>Paths\<close>

text \<open>
  \<open>pathlib.Path\<close> in its POSIX flavour: a path is parsed into a root (\<open>''\<close>, \<open>'/'\<close> or
  \<open>'//'\<close>) and the list of its components, with empty components and \<open>'.'\<close> dropped.
  \<open>str(p)\<close> joins them again (\<open>'.'\<close> for the empty path) and \<open>p.name\<close> is the last
  component.  Two paths are compared through a list of strings, which depends on the
  interpreter: up to CPython 3.11 the parts of the path, the root (if any) being the
  first part (\<open>cparts\<close>); from CPython 3.12 on the list \<open>str(p).split('/')\<close>
  (\<open>parts_normcase\<close>).  Both are modelled; the flag \<open>py312\<close> of the environment says
  which one the interpreter uses.
\<close>

record path =
  path_root :: ustring
  path_tail :: "ustring list"

definition splitroot :: "ustring \<Rightarrow> ustring \<times> ustring" where
  "splitroot p =
     (if take 1 p \<noteq> lit ''/'' then ([], p)
      else if take 1 (drop 1 p) \<noteq> lit ''/'' \<or> take 1 (drop 2 p) = lit ''/''
        then (lit ''/'', drop 1 p)
      else (take 2 p, drop 2 p))"

definition Path :: "ustring \<Rightarrow> path" where
  "Path arg =
     (if arg = [] then \<lparr>path_root = [], path_tail = []\<rparr>
      else (case splitroot arg of
        (rt, rel) \<Rightarrow>
          \<lparr>path_root = rt, path_tail = filter (\<lambda>x. x \<noteq> [] \<and> x \<noteq> lit ''.'') (str_split 47 rel)\<rparr>))"

definition path_str :: "path \<Rightarrow> ustring" where
  "path_str p =
     (let s = (if path_root p \<noteq> [] then path_root p @ str_join (lit ''/'') (path_tail p)
               else str_join (lit ''/'') (path_tail p))
      in if s = [] then lit ''.'' else s)"

definition path_name :: "path \<Rightarrow> ustring" where
  "path_name p = (if path_tail p = [] then [] else last (path_tail p))"

definition parts_normcase :: "path \<Rightarrow> ustring list" where
  "parts_normcase p = str_split 47 (path_str p)"

definition cparts :: "path \<Rightarrow> ustring list" where
  "cparts p = (if path_root p \<noteq> [] then path_root p # path_tail p else path_tail p)"

definition compare_key :: "bool \<Rightarrow> path \<Rightarrow> ustring list" where
  "compare_key py312 p = (if py312 then parts_normcase p else cparts p)"

text \<open>\<open>sorted(paths)\<close>: Python's sort is stable and compares two paths by their keys,
  lists of strings in lexicographic order.\<close>

definition sorted_paths :: "bool \<Rightarrow> path list \<Rightarrow> path list" where
  "sorted_paths py312 ps = sort_key (compare_key py312) ps"

subsection \<open>JSON documents\<close>

text \<open>What \<open>json.load\<close> returns: \<open>None\<close>, \<open>bool\<close>, \<open>int\<close>, \<open>float\<close>, \<open>str\<close>, \<open>list\<close>
  or \<open>dict\<close> (its items in document order; \<open>json.load\<close> yields no key twice).\<close>

datatype json =
    JNull
  | JBool bool
  | JInt int
  | JFloat real
  | JStr ustring
  | JArr "json list"
  | JObj "(ustring \<times> json) list"

text \<open>\<open>d.get(key, default)\<close>: only a \<open>dict\<close> has \<open>get\<close>.\<close>

fun py_get :: "json \<Rightarrow> ustring \<Rightarrow> json \<Rightarrow> exn + json" where
  "py_get (JObj kvs) key dflt = Inr (case map_of kvs key of None \<Rightarrow> dflt | Some v \<Rightarrow> v)"
| "py_get _ key dflt = Inl AttributeError"

text \<open>Iteration (\<open>for x in v\<close>): a list gives its elements, a string its characters, a
  \<open>dict\<close> its keys; nothing else is iterable.\<close>

fun py_iter :: "json \<Rightarrow> exn + json list" where
  "py_iter (JArr xs) = Inr xs"
| "py_iter (JStr s) = Inr (map (\<lambda>c. JStr [c]) s)"
| "py_iter (JObj kvs) = Inr (map (\<lambda>kv. JStr (fst kv)) kvs)"
| "py_iter _ = Inl TypeError"

text \<open>\<open>v[:n]\<close>: strings and lists are sliced, a \<open>dict\<close> has no key \<open>slice(None, n)\<close>
  (\<open>KeyError\<close>, as of CPython 3.12), and nothing else is subscriptable.\<close>

fun py_take :: "nat \<Rightarrow> json \<Rightarrow> exn + json" where
  "py_take n (JStr s) = Inr (JStr (py_slice 0 n s))"
| "py_take n (JArr xs) = Inr (JArr (py_slice 0 n xs))"
| "py_take n (JObj kvs) = Inl KeyError"
| "py_take n _ = Inl TypeError"

section \<open>The environment\<close>

text \<open>
  The script talks to the outside world in four places: it starts
  \<open>python -m jupyter nbconvert ... path\<close> with \<open>subprocess.run\<close>, it opens a notebook
  and parses it with \<open>json.load\<close>, it globs \<open>**/*.ipynb\<close> under the script's
  directory, and it prints to \<open>sys.stdout\<close>.  The world is a state \<open>'w\<close>; running a
  subprocess may change it (the tool rewrites the notebook), reading does not.
  \<open>py_str\<close> is Python's \<open>str()\<close> on the values that are not strings, used when a
  descriptor is printed.  \<open>stdout_encodes\<close> says which code points beyond ASCII the
  encoding of \<open>sys.stdout\<close> can encode (none for \<open>ascii\<close>, all but the surrogates for
  \<open>utf-8\<close>); ASCII itself is encoded by every encoding a terminal or a locale has.
  \<open>py312\<close> holds when the interpreter is CPython 3.12 or later.
\<close>

record completed_process =
  returncode :: int
  stderr :: ustring

record 'w env =
  subprocess_run :: "path \<Rightarrow> 'w \<Rightarrow> (exn + completed_process) \<times> 'w"
  json_load :: "path \<Rightarrow> 'w \<Rightarrow> exn + json"
  glob_ipynb :: "'w \<Rightarrow> path list"
  py_str :: "json \<Rightarrow> ustring"
  stdout_encodes :: "nat \<Rightarrow> bool"
  py312 :: bool

section \<open>\<open>run_notebook\<close>\<close>

text \<open>The \<open>for i, line in enumerate(lines)\<close> loop of \<open>run_notebook\<close>: \<open>Some\<close> the new
  message at the \<open>break\<close>, \<open>None\<close> when the loop runs to its end.\<close>

definition mentions_error :: "ustring \<Rightarrow> bool" where
  "mentions_error line \<longleftrightarrow> sublist (lit ''Error'') line \<or> sublist (lit ''Exception'') line"

fun scan_lines :: "ustring list \<Rightarrow> nat \<Rightarrow> ustring list \<Rightarrow> ustring option" where
  "scan_lines lines i [] = None"
| "scan_lines lines i (line # rest) =
     (if mentions_error line then Some (str_join [newline] (py_slice i (i + 3) lines))
      else scan_lines lines (Suc i) rest)"

text \<open>Lines 44 to 52: the message returned for a nonzero exit status.\<close>

definition error_message :: "ustring \<Rightarrow> ustring" where
  "error_message err =
     (let error_msg = strip err;
          error_msg =
            (if sublist (lit ''CellExecutionError'') error_msg then
               (let lines = str_split newline error_msg
                in case scan_lines lines 0 lines of Some m \<Rightarrow> m | None \<Rightarrow> error_msg)
             else error_msg)
      in if length error_msg > 200 then py_slice 0 200 error_msg else error_msg)"

definition run_notebook :: "'w env \<Rightarrow> path \<Rightarrow> 'w \<Rightarrow> (exn + bool \<times> ustring) \<times> 'w" where
  "run_notebook env p w =
     (case subprocess_run env p w of
        (Inl e, w') \<Rightarrow>
          (if e = FileNotFoundError
           then Inr (False, lit ''jupyter not found. Install with: pip install jupyter nbconvert'')
           else Inl e, w')
      | (Inr result, w') \<Rightarrow>
          (if returncode result \<noteq> 0 then Inr (False, error_message (stderr result))
           else Inr (True, []), w'))"

section \<open>\<open>check_saved_outputs\<close>\<close>

text \<open>An entry of the list \<open>errors\<close>: the dictionary
  \<open>{'cell': i, 'ename': ename, 'evalue': evalue}\<close>.\<close>

record descriptor =
  cell :: nat
  ename :: json
  evalue :: json

text \<open>The inner loop \<open>for output in cell.get('outputs', [])\<close>, with the list \<open>errors\<close>
  as accumulator.\<close>

fun scan_outputs :: "nat \<Rightarrow> json list \<Rightarrow> descriptor list \<Rightarrow> exn + descriptor list" where
  "scan_outputs i [] errors = Inr errors"
| "scan_outputs i (output # rest) errors =
     (case py_get output (lit ''output_type'') JNull of
        Inl e \<Rightarrow> Inl e
      | Inr t \<Rightarrow>
          if t = JStr (lit ''error'') then
            (case py_get output (lit ''ename'') (JStr (lit ''Unknown'')) of
               Inl e \<Rightarrow> Inl e
             | Inr en \<Rightarrow>
                 (case py_get output (lit ''evalue'') (JStr []) of
                    Inl e \<Rightarrow> Inl e
                  | Inr v \<Rightarrow>
                      (case py_take 100 v of
                         Inl e \<Rightarrow> Inl e
                       | Inr ev \<Rightarrow>
                           scan_outputs i rest
                             (errors @ [\<lparr>cell = i, ename = en, evalue = ev\<rparr>]))))
          else scan_outputs i rest errors)"

text \<open>The outer loop \<open>for i, cell in enumerate(cells, start=1)\<close>.\<close>

fun scan_cells :: "nat \<Rightarrow> json list \<Rightarrow> descriptor list \<Rightarrow> exn + descriptor list" where
  "scan_cells i [] errors = Inr errors"
| "scan_cells i (c # rest) errors =
     (case py_get c (lit ''cell_type'') JNull of
        Inl e \<Rightarrow> Inl e
      | Inr t \<Rightarrow>
          if t \<noteq> JStr (lit ''code'') then scan_cells (Suc i) rest errors
          else
            (case py_get c (lit ''outputs'') (JArr []) of
               Inl e \<Rightarrow> Inl e
             | Inr outs \<Rightarrow>
                 (case py_iter outs of
                    Inl e \<Rightarrow> Inl e
                  | Inr os \<Rightarrow>
                      (case scan_outputs i os errors of
                         Inl e \<Rightarrow> Inl e
                       | Inr errors' \<Rightarrow> scan_cells (Suc i) rest errors'))))"

text \<open>The body of \<open>check_saved_outputs\<close> after \<open>json.load\<close>.\<close>

definition inspect_notebook :: "json \<Rightarrow> exn + descriptor list" where
  "inspect_notebook notebook =
     (case py_get notebook (lit ''cells'') (JArr []) of
        Inl e \<Rightarrow> Inl e
      | Inr cells \<Rightarrow>
          (case py_iter cells of
             Inl e \<Rightarrow> Inl e
           | Inr cs \<Rightarrow> scan_cells 1 cs []))"

definition check_saved_outputs :: "'w env \<Rightarrow> path \<Rightarrow> 'w \<Rightarrow> exn + descriptor list" where
  "check_saved_outputs env p w =
     (case json_load env p w of
        Inl e \<Rightarrow> Inl e
      | Inr notebook \<Rightarrow> inspect_notebook notebook)"

section \<open>\<open>main\<close>\<close>

text \<open>
  The state of a run: the world, what has been printed, and the flag \<open>all_passed\<close>.
  \<open>history\<close> is not a variable of the script: it records, in order, every call of
  \<open>run_notebook\<close> and \<open>check_saved_outputs\<close> the loop has made and what the call
  returned or raised.
\<close>

datatype event =
    Ran path "exn + bool \<times> ustring"
  | Inspected path "exn + descriptor list"

record 'w state =
  world :: 'w
  stdout :: ustring
  all_passed :: bool
  history :: "event list"

definition check_mark :: nat where
  "check_mark = 10003"

definition cross_mark :: nat where
  "cross_mark = 10060"

text \<open>
  Writing a string to \<open>sys.stdout\<close>: the string is encoded as a whole, and
  \<open>UnicodeEncodeError\<close> is raised, with nothing written, when one of its code points
  cannot be encoded.  A statement that may raise returns \<open>Some\<close> the exception, or
  \<open>None\<close>, with the state it leaves; \<open>and_then\<close> is the sequence of two statements.
\<close>

definition encodable :: "'w env \<Rightarrow> nat \<Rightarrow> bool" where
  "encodable env c \<longleftrightarrow> c < 128 \<or> stdout_encodes env c"

definition py_write :: "'w env \<Rightarrow> ustring \<Rightarrow> 'w state \<Rightarrow> exn option \<times> 'w state" where
  "py_write env s st =
     (if list_all (encodable env) s then (None, st\<lparr>stdout := stdout st @ s\<rparr>)
      else (Some UnicodeEncodeError, st))"

definition and_then ::
  "('s \<Rightarrow> exn option \<times> 's) \<Rightarrow> ('s \<Rightarrow> exn option \<times> 's) \<Rightarrow> 's \<Rightarrow> exn option \<times> 's" where
  "and_then f g st = (case f st of (Some e, st') \<Rightarrow> (Some e, st') | (None, st') \<Rightarrow> g st')"

text \<open>\<open>print(s, end=e)\<close> writes \<open>s\<close>, then \<open>e\<close>; \<open>print(s)\<close> is \<open>print(s, end='\n')\<close>.\<close>

definition py_print_end ::
  "'w env \<Rightarrow> ustring \<Rightarrow> ustring \<Rightarrow> 'w state \<Rightarrow> exn option \<times> 'w state" where
  "py_print_end env s e = and_then (py_write env s) (py_write env e)"

definition py_print :: "'w env \<Rightarrow> ustring \<Rightarrow> 'w state \<Rightarrow> exn option \<times> 'w state" where
  "py_print env s = py_print_end env s [newline]"

text \<open>A value inside an f-string: a string as it is, anything else through \<open>str()\<close>.\<close>

definition format_value :: "'w env \<Rightarrow> json \<Rightarrow> ustring" where
  "format_value env v = (case v of JStr s \<Rightarrow> s | _ \<Rightarrow> py_str env v)"

text \<open>\<open>for err in errors: print(f"   Cell {err['cell']}: {err['ename']}: {err['evalue']}")\<close>\<close>

fun print_errors ::
  "'w env \<Rightarrow> descriptor list \<Rightarrow> 'w state \<Rightarrow> exn option \<times> 'w state" where
  "print_errors env [] st = (None, st)"
| "print_errors env (err # errs) st =
     and_then
       (py_print env (lit ''   Cell '' @ str_nat (cell err) @ lit '': '' @
                      format_value env (ename err) @ lit '': '' @
                      format_value env (evalue err)))
       (print_errors env errs) st"

text \<open>The body of the loop \<open>for nb_path in sorted(notebooks)\<close>: \<open>Some e\<close> when the
  exception \<open>e\<close> leaves the body.\<close>

definition process_notebook ::
  "'w env \<Rightarrow> bool \<Rightarrow> path \<Rightarrow> 'w state \<Rightarrow> exn option \<times> 'w state" where
  "process_notebook env check_only nb_path st =
     (if check_only then
        (let r = check_saved_outputs env nb_path (world st);
             st = st\<lparr>history := history st @ [Inspected nb_path r]\<rparr>
         in case r of
              Inl e \<Rightarrow> (Some e, st)
            | Inr errors \<Rightarrow>
                if errors \<noteq> [] then
                  and_then
                    (py_print env ([cross_mark] @ lit '' '' @ path_name nb_path @ lit '': '' @
                                   str_nat (length errors) @ lit '' error(s)''))
                    (print_errors env errors)
                    (st\<lparr>all_passed := False\<rparr>)
                else
                  py_print env ([check_mark] @ lit '' '' @ path_name nb_path @ lit '': OK'') st)
      else
        and_then
          (py_print_end env (lit ''  Running '' @ path_name nb_path @ lit ''...'') (lit '' ''))
          (\<lambda>st.
             case run_notebook env nb_path (world st) of
               (r, w') \<Rightarrow>
                 (let st = st\<lparr>world := w', history := history st @ [Ran nb_path r]\<rparr>
                  in case r of
                       Inl e \<Rightarrow> (Some e, st)
                     | Inr (success, error) \<Rightarrow>
                         if success then py_print env [check_mark] st
                         else
                           and_then
                             (py_print env [cross_mark])
                             (py_print env (lit ''    Error: '' @ error))
                             (st\<lparr>all_passed := False\<rparr>)))
          st)"

fun process_notebooks ::
  "'w env \<Rightarrow> bool \<Rightarrow> path list \<Rightarrow> 'w state \<Rightarrow> exn option \<times> 'w state" where
  "process_notebooks env check_only [] st = (None, st)"
| "process_notebooks env check_only (nb_path # rest) st =
     and_then (process_notebook env check_only nb_path)
       (process_notebooks env check_only rest) st"

text \<open>Lines 77 to 84: the notebooks named on the command line, or else those found
  under the script's directory outside checkpoint directories.\<close>

definition target_notebooks :: "'w env \<Rightarrow> ustring list \<Rightarrow> 'w \<Rightarrow> path list" where
  "target_notebooks env argv w =
     (let args = filter (\<lambda>a. \<not> prefix (lit ''--'') a) (tl argv)
      in if args \<noteq> [] then map Path args
         else filter (\<lambda>nb. \<not> sublist (lit ''.ipynb_checkpoints'') (path_str nb))
                (glob_ipynb env w))"

text \<open>\<open>main\<close> returns its status, or an exception leaves it; the state it leaves
  behind holds the output.  \<open>returning\<close> runs a statement and, unless it raises, the
  rest of \<open>main\<close>.\<close>

definition returning ::
  "exn option \<times> 's \<Rightarrow> ('s \<Rightarrow> (exn + int) \<times> 's) \<Rightarrow> (exn + int) \<times> 's" where
  "returning r k = (case r of (Some e, st) \<Rightarrow> (Inl e, st) | (None, st) \<Rightarrow> k st)"

definition main :: "'w env \<Rightarrow> ustring list \<Rightarrow> 'w \<Rightarrow> (exn + int) \<times> 'w state" where
  "main env argv w =
     (let check_only = (lit ''--check'' \<in> set argv);
          notebooks = target_notebooks env argv w;
          st = \<lparr>world = w, stdout = [], all_passed = True, history = []\<rparr>
      in if notebooks = [] then
           returning (py_print env (lit ''No notebooks found.'') st) (\<lambda>st. (Inr 0, st))
         else
           (let mode = (if check_only then lit ''Checking saved outputs'' else lit ''Running'')
            in returning
                 (py_print env (mode @ lit '' '' @ str_nat (length notebooks) @
                                lit '' notebook(s)...'' @ [newline]) st)
                 (\<lambda>st. returning
                    (process_notebooks env check_only (sorted_paths (py312 env) notebooks) st)
                    (\<lambda>st. returning (py_print env [] st)
                       (\<lambda>st. if all_passed st then
                               returning
                                 (py_print env (lit ''All notebooks passed! '' @ [check_mark]) st)
                                 (\<lambda>st. (Inr 0, st))
                             else
                               returning (py_print env (lit ''Some notebooks have errors.'') st)
                                 (\<lambda>st. (Inr 1, st)))))))"

text \<open>\<open>sys.exit(main())\<close>: the status \<open>main\<close> returns, and 1 when an exception leaves
  \<open>main\<close> (the interpreter prints the traceback and exits with status 1).\<close>

definition exit_status :: "exn + int \<Rightarrow> int" where
  "exit_status r = (case r of Inl e \<Rightarrow> 1 | Inr n \<Rightarrow> n)"

section \<open>What the inspector is to report\<close>

text \<open>
  The document format and the descriptors in the words of the specification, to be
  compared with what \<open>check_saved_outputs\<close> computes: a field of an object with its
  default, the cells of a notebook, the outputs of a cell, code cells and error outputs;
  \<open>spec_descriptor\<close>, the descriptor of an error output of the cell at position \<open>i\<close>
  (the name with default \<open>Unknown\<close>, the value cut to 100 characters);
  \<open>spec_cell_descriptors\<close>, those of the error outputs of one cell (none unless it is a
  code cell); and \<open>spec_descriptors\<close>, those of a whole cell list numbered from \<open>n\<close>,
  counting every cell.  A well-formed notebook is an
  object whose \<open>cells\<close> (if present) is a list of objects, whose code cells have a list
  of objects as \<open>outputs\<close> (if present), and whose error outputs have a string as
  \<open>evalue\<close> (if present).
\<close>

definition field_or :: "json \<Rightarrow> ustring \<Rightarrow> json \<Rightarrow> json" where
  "field_or dflt key v =
     (case v of JObj kvs \<Rightarrow> (case map_of kvs key of None \<Rightarrow> dflt | Some x \<Rightarrow> x) | _ \<Rightarrow> dflt)"

definition items :: "json \<Rightarrow> json list" where
  "items v = (case py_iter v of Inr xs \<Rightarrow> xs | Inl e \<Rightarrow> [])"

definition truncated :: "nat \<Rightarrow> json \<Rightarrow> json" where
  "truncated n v = (case v of JStr s \<Rightarrow> JStr (take n s) | JArr xs \<Rightarrow> JArr (take n xs) | _ \<Rightarrow> v)"

definition is_code_cell :: "json \<Rightarrow> bool" where
  "is_code_cell c \<longleftrightarrow> field_or JNull (lit ''cell_type'') c = JStr (lit ''code'')"

definition is_error_output :: "json \<Rightarrow> bool" where
  "is_error_output output \<longleftrightarrow> field_or JNull (lit ''output_type'') output = JStr (lit ''error'')"

definition outputs_of :: "json \<Rightarrow> json list" where
  "outputs_of c = items (field_or (JArr []) (lit ''outputs'') c)"

definition cells_of :: "json \<Rightarrow> json list" where
  "cells_of notebook = items (field_or (JArr []) (lit ''cells'') notebook)"

definition spec_descriptor :: "nat \<Rightarrow> json \<Rightarrow> descriptor" where
  "spec_descriptor i output =
     \<lparr>cell = i,
      ename = field_or (JStr (lit ''Unknown'')) (lit ''ename'') output,
      evalue = truncated 100 (field_or (JStr []) (lit ''evalue'') output)\<rparr>"

definition spec_cell_descriptors :: "nat \<Rightarrow> json \<Rightarrow> descriptor list" where
  "spec_cell_descriptors i c =
     (if is_code_cell c then map (spec_descriptor i) (filter is_error_output (outputs_of c)) else [])"

definition spec_descriptors :: "nat \<Rightarrow> json list \<Rightarrow> descriptor list" where
  "spec_descriptors n cs = concat (map (\<lambda>(i, c). spec_cell_descriptors i c) (enumerate n cs))"

definition is_dict :: "json \<Rightarrow> bool" where
  "is_dict v = (case v of JObj kvs \<Rightarrow> True | _ \<Rightarrow> False)"

definition is_str :: "json \<Rightarrow> bool" where
  "is_str v = (case v of JStr s \<Rightarrow> True | _ \<Rightarrow> False)"

definition wf_output :: "json \<Rightarrow> bool" where
  "wf_output output \<longleftrightarrow>
     is_dict output \<and>
     (is_error_output output \<longrightarrow> is_str (field_or (JStr []) (lit ''evalue'') output))"

definition wf_cell :: "json \<Rightarrow> bool" where
  "wf_cell c \<longleftrightarrow>
     is_dict c \<and>
     (is_code_cell c \<longrightarrow>
        (case field_or (JArr []) (lit ''outputs'') c of
           JArr os \<Rightarrow> list_all wf_output os | _ \<Rightarrow> False))"

definition wf_notebook :: "json \<Rightarrow> bool" where
  "wf_notebook notebook \<longleftrightarrow>
     is_dict notebook \<and>
     (case field_or (JArr []) (lit ''cells'') notebook of
        JArr cs \<Rightarrow> list_all wf_cell cs | _ \<Rightarrow> False)"

section \<open>What a run is to show\<close>

text \<open>
  For an event of the history: its notebook, the exception it raised (if any), whether
  the notebook passed (the executor returned success, or the inspector found no
  descriptor) or failed (the executor returned failure, or the inspector found a
  descriptor), and the text the loop prints for it (\<open>report\<close>).  \<open>step_event\<close> is the
  event of processing one notebook in a given world and \<open>step_world\<close> the world
  after it.  An event is printable when \<open>sys.stdout\<close> can encode its report, and in
  order (\<open>event_ok\<close>) when moreover it raised nothing.  \<open>header\<close> and \<open>summary\<close> are
  the first and the last lines of the output, and \<open>initial_state\<close> is the state in
  which the loop starts.
\<close>

fun event_path :: "event \<Rightarrow> path" where
  "event_path (Ran p r) = p"
| "event_path (Inspected p r) = p"

fun event_exn :: "event \<Rightarrow> exn option" where
  "event_exn (Ran p r) = (case r of Inl e \<Rightarrow> Some e | Inr x \<Rightarrow> None)"
| "event_exn (Inspected p r) = (case r of Inl e \<Rightarrow> Some e | Inr x \<Rightarrow> None)"

fun event_passed :: "event \<Rightarrow> bool" where
  "event_passed (Ran p r) = (case r of Inl e \<Rightarrow> False | Inr (success, error) \<Rightarrow> success)"
| "event_passed (Inspected p r) = (case r of Inl e \<Rightarrow> False | Inr errors \<Rightarrow> errors = [])"

fun event_failed :: "event \<Rightarrow> bool" where
  "event_failed (Ran p r) = (case r of Inl e \<Rightarrow> False | Inr (success, error) \<Rightarrow> \<not> success)"
| "event_failed (Inspected p r) = (case r of Inl e \<Rightarrow> False | Inr errors \<Rightarrow> errors \<noteq> [])"

fun is_inspection :: "event \<Rightarrow> bool" where
  "is_inspection (Ran p r) = False"
| "is_inspection (Inspected p r) = True"

definition error_line :: "'w env \<Rightarrow> descriptor \<Rightarrow> ustring" where
  "error_line env err =
     lit ''   Cell '' @ str_nat (cell err) @ lit '': '' @ format_value env (ename err) @
     lit '': '' @ format_value env (evalue err) @ [newline]"

fun report :: "'w env \<Rightarrow> event \<Rightarrow> ustring" where
  "report env (Ran p r) =
     lit ''  Running '' @ path_name p @ lit ''... '' @
     (case r of
        Inl e \<Rightarrow> []
      | Inr (success, error) \<Rightarrow>
          if success then [check_mark, newline]
          else [cross_mark, newline] @ lit ''    Error: '' @ error @ [newline])"
| "report env (Inspected p r) =
     (case r of
        Inl e \<Rightarrow> []
      | Inr errors \<Rightarrow>
          if errors = [] then [check_mark] @ lit '' '' @ path_name p @ lit '': OK'' @ [newline]
          else [cross_mark] @ lit '' '' @ path_name p @ lit '': '' @ str_nat (length errors) @
               lit '' error(s)'' @ [newline] @ concat (map (error_line env) errors))"

definition event_printable :: "'w env \<Rightarrow> event \<Rightarrow> bool" where
  "event_printable env ev \<longleftrightarrow> list_all (encodable env) (report env ev)"

definition event_ok :: "'w env \<Rightarrow> event \<Rightarrow> bool" where
  "event_ok env ev \<longleftrightarrow> event_exn ev = None \<and> event_printable env ev"

definition step_event :: "'w env \<Rightarrow> bool \<Rightarrow> path \<Rightarrow> 'w \<Rightarrow> event" where
  "step_event env check_only nb w =
     (if check_only then Inspected nb (check_saved_outputs env nb w)
      else Ran nb (fst (run_notebook env nb w)))"

definition step_world :: "'w env \<Rightarrow> bool \<Rightarrow> path \<Rightarrow> 'w \<Rightarrow> 'w" where
  "step_world env check_only nb w =
     (if check_only then w else snd (run_notebook env nb w))"

definition header :: "bool \<Rightarrow> nat \<Rightarrow> ustring" where
  "header check_only n =
     (if check_only then lit ''Checking saved outputs'' else lit ''Running'') @ lit '' '' @
     str_nat n @ lit '' notebook(s)...'' @ [newline, newline]"

definition summary :: "bool \<Rightarrow> ustring" where
  "summary ok =
     [newline] @
     (if ok then lit ''All notebooks passed! '' @ [check_mark] else lit ''Some notebooks have errors.'') @
     [newline]"

definition initial_state :: "bool \<Rightarrow> nat \<Rightarrow> 'w \<Rightarrow> 'w state" where
  "initial_state check_only n w =
     \<lparr>world = w, stdout = header check_only n, all_passed = True, history = []\<rparr>"

section \<open>Example inputs\<close>

text \<open>A small environment and three notebooks, used to run the definitions on concrete
  inputs.\<close>

definition failing_stderr :: ustring where
  "failing_stderr = lit ''  Traceback\<newline>nbclient.CellExecutionError: An error\<newline>ValueError: bad\<newline>more\<newline>rest\<newline>''"

definition scenario_notebook :: json where
  "scenario_notebook =
     JObj [(lit ''cells'', JArr [JObj [(lit ''cell_type'', JStr (lit ''code'')),
        (lit ''outputs'', JArr [JObj [(lit ''output_type'', JStr (lit ''error'')),
            (lit ''ename'', JStr (lit ''ValueError'')), (lit ''evalue'', JStr (lit ''bad input''))]])]])]"

definition clean_notebook :: json where
  "clean_notebook =
     JObj [(lit ''cells'', JArr [JObj [(lit ''cell_type'', JStr (lit ''markdown''))],
        JObj [(lit ''cell_type'', JStr (lit ''code'')), (lit ''outputs'', JArr [])]])]"

definition example_notebook :: json where
  "example_notebook =
     JObj [(lit ''cells'', JArr
       [JObj [(lit ''cell_type'', JStr (lit ''markdown'')), (lit ''source'', JStr (lit ''# Title''))],
        JObj [(lit ''cell_type'', JStr (lit ''code'')),
              (lit ''outputs'', JArr [JObj [(lit ''output_type'', JStr (lit ''error'')),
                 (lit ''ename'', JStr (lit ''ZeroDivisionError'')),
                 (lit ''evalue'', JStr (lit ''division by zero''))]])],
        JObj [(lit ''cell_type'', JStr (lit ''code'')),
              (lit ''outputs'', JArr [JObj [(lit ''output_type'', JStr (lit ''stream'')),
                 (lit ''text'', JStr (lit ''ok''))]])]])]"

definition demo_env :: "nat env" where
  "demo_env =
     \<lparr>subprocess_run = (\<lambda>p w.
        (if path_name p = lit ''a.ipynb'' then Inr \<lparr>returncode = 0, stderr = []\<rparr>
         else if path_name p = lit ''b.ipynb'' then Inr \<lparr>returncode = 1, stderr = failing_stderr\<rparr>
         else if path_name p = lit ''c.ipynb''
           then Inr \<lparr>returncode = 2, stderr = lit ''  boom \<newline>''\<rparr>
         else Inl FileNotFoundError, Suc w)),
       json_load = (\<lambda>p w.
         if path_name p = lit ''a.ipynb'' then Inr clean_notebook
         else if path_name p = lit ''b.ipynb'' then Inr scenario_notebook
         else if path_name p = lit ''c.ipynb'' then Inr example_notebook
         else Inl JSONDecodeError),
       glob_ipynb = (\<lambda>w. []),
       py_str = (\<lambda>v. lit ''?''),
       stdout_encodes = (\<lambda>c. True),
       py312 = True\<rparr>"

text \<open>The same environment with a standard output that encodes ASCII only, and with
  an interpreter older than CPython 3.12.\<close>

definition ascii_env :: "nat env" where
  "ascii_env = demo_env\<lparr>stdout_encodes := (\<lambda>c. False)\<rparr>"

definition legacy_env :: "nat env" where
  "legacy_env = demo_env\<lparr>py312 := False\<rparr>"

text \<open>An environment in which the interpreter cannot start the tool.\<close>

definition no_tool_env :: "nat env" where
  "no_tool_env = demo_env\<lparr>subprocess_run := (\<lambda>p w. (Inl FileNotFoundError, w))\<rparr>"

text \<open>The tool is missing and the standard output encodes ASCII only.\<close>

definition ascii_no_tool_env :: "nat env" where
  "ascii_no_tool_env = no_tool_env\<lparr>stdout_encodes := (\<lambda>c. False)\<rparr>"

text \<open>An environment in which the operating system refuses every launch with an
  \<open>OSError\<close> other than \<open>FileNotFoundError\<close> (such as \<open>PermissionError\<close>).\<close>

definition denied_env :: "nat env" where
  "denied_env = demo_env\<lparr>subprocess_run := (\<lambda>p w. (Inl OSError, w))\<rparr>"


section \<open>Strings: substrings, lines, the first matching line\<close>

lemma sublist_dropWhile_hd:
  "sublist sub s \<Longrightarrow> sub \<noteq> [] \<Longrightarrow> \<not> P (hd sub) \<Longrightarrow> sublist sub (dropWhile P s)"
proof (induction s)
  case Nil
  then show ?case by simp
next
  case (Cons x xs)
  show ?case
  proof (cases "P x")
    case True
    from Cons.prems obtain y ys where sub: "sub = y # ys" by (cases sub) auto
    have "\<not> prefix sub (x # xs)" using True Cons.prems(3) sub by auto
    with Cons.prems(1) have "sublist sub xs" by (simp add: sublist_Cons_right)
    with Cons.IH Cons.prems True show ?thesis by simp
  next
    case False
    with Cons.prems show ?thesis by simp
  qed
qed

lemma sublist_strip:
  assumes "sub \<noteq> []" "\<not> isspace (hd sub)" "\<not> isspace (last sub)"
  shows "sublist sub (strip s) \<longleftrightarrow> sublist sub s"
proof
  assume "sublist sub (strip s)"
  then have "sublist (rev sub) (dropWhile isspace (rev (dropWhile isspace s)))"
    by (simp add: strip_def sublist_rev_right)
  then have "sublist (rev sub) (rev (dropWhile isspace s))"
    using sublist_dropWhile sublist_order.order_trans by blast
  then have "sublist sub (dropWhile isspace s)" by (simp add: sublist_rev)
  then show "sublist sub s"
    using sublist_dropWhile sublist_order.order_trans by blast
next
  assume "sublist sub s"
  then have "sublist sub (dropWhile isspace s)"
    using assms by (simp add: sublist_dropWhile_hd)
  then have "sublist (rev sub) (rev (dropWhile isspace s))" by (simp add: sublist_rev)
  then have "sublist (rev sub) (dropWhile isspace (rev (dropWhile isspace s)))"
    using assms by (intro sublist_dropWhile_hd) (simp_all add: hd_rev)
  then show "sublist sub (strip s)" by (simp add: strip_def sublist_rev_right)
qed

lemma str_split_not_Nil [simp]: "str_split sep s \<noteq> []"
  by (cases s) (simp_all split: list.split)

lemma prefix_hd_str_split:
  "prefix sub s \<Longrightarrow> sep \<notin> set sub \<Longrightarrow> prefix sub (hd (str_split sep s))"
proof (induction s arbitrary: sub)
  case Nil
  then show ?case by simp
next
  case (Cons x xs)
  show ?case
  proof (cases sub)
    case Nil
    then show ?thesis by simp
  next
    case (Cons y ys)
    with Cons.prems have "y = x" "prefix ys xs" "x \<noteq> sep" "sep \<notin> set ys" by auto
    with Cons.IH[of ys] Cons show ?thesis by (auto split: list.splits)
  qed
qed

lemma sublist_in_line:
  "sublist sub s \<Longrightarrow> sep \<notin> set sub \<Longrightarrow> \<exists>l\<in>set (str_split sep s). sublist sub l"
proof (induction s)
  case Nil
  then show ?case by simp
next
  case (Cons x xs)
  show ?case
  proof (cases "prefix sub (x # xs)")
    case True
    then have "prefix sub (hd (str_split sep (x # xs)))"
      using Cons.prems(2) by (rule prefix_hd_str_split)
    moreover have "hd (str_split sep (x # xs)) \<in> set (str_split sep (x # xs))"
      by (rule hd_in_set) (rule str_split_not_Nil)
    ultimately show ?thesis by (meson prefix_imp_sublist)
  next
    case False
    with Cons.prems have "sublist sub xs" by (simp add: sublist_Cons_right)
    with Cons.IH Cons.prems obtain l where l: "l \<in> set (str_split sep xs)" "sublist sub l" by blast
    show ?thesis
    proof (cases "x = sep")
      case True
      with l show ?thesis by auto
    next
      case False
      obtain w ws where ws: "str_split sep xs = w # ws" by (cases "str_split sep xs") auto
      with l have "l = w \<or> l \<in> set ws" by auto
      then show ?thesis
      proof
        assume "l = w"
        with l have "sublist sub (x # w)" by (simp add: sublist_Cons_right)
        with False ws show ?thesis by auto
      next
        assume "l \<in> set ws"
        with False ws l show ?thesis by auto
      qed
    qed
  qed
qed

lemma scan_lines_dropWhile:
  "rest = drop i lines \<Longrightarrow>
   scan_lines lines i rest =
     (case dropWhile (\<lambda>l. \<not> mentions_error l) rest of
        [] \<Rightarrow> None
      | l # ls \<Rightarrow> Some (str_join [newline] (take 3 (l # ls))))"
proof (induction rest arbitrary: i)
  case Nil
  then show ?case by simp
next
  case (Cons line rest)
  from Cons.prems have rest: "rest = drop (Suc i) lines"
    by (metis drop_Suc list.sel(3) tl_drop)
  show ?case
  proof (cases "mentions_error line")
    case True
    have "py_slice i (i + 3) lines = take 3 (drop i lines)"
      by (simp add: py_slice_def drop_take)
    with True show ?thesis by (simp add: Cons.prems[symmetric])
  next
    case False
    with Cons.IH[OF rest] show ?thesis by simp
  qed
qed

lemma lit_CellExecutionError_facts:
  "lit ''CellExecutionError'' \<noteq> []"
  "\<not> isspace (hd (lit ''CellExecutionError''))"
  "\<not> isspace (last (lit ''CellExecutionError''))"
  "newline \<notin> set (lit ''CellExecutionError'')"
  "sublist (lit ''Error'') (lit ''CellExecutionError'')"
  by (simp_all add: lit_def isspace_def newline_def sublist_code)

lemma CellExecutionError_line:
  assumes "sublist (lit ''CellExecutionError'') err"
  shows "\<exists>l\<in>set (str_split newline (strip err)).
           sublist (lit ''CellExecutionError'') l \<and> sublist (lit ''Error'') l"
proof -
  have "sublist (lit ''CellExecutionError'') (strip err)"
    using assms by (simp add: sublist_strip lit_CellExecutionError_facts)
  then obtain l where l: "l \<in> set (str_split newline (strip err))"
      "sublist (lit ''CellExecutionError'') l"
    using sublist_in_line lit_CellExecutionError_facts(4) by blast
  from l(2) have "sublist (lit ''Error'') l"
    using lit_CellExecutionError_facts(5) sublist_order.order_trans by blast
  with l show ?thesis by blast
qed

lemma scan_lines_all:
  "scan_lines lines 0 lines =
     (case dropWhile (\<lambda>l. \<not> mentions_error l) lines of
        [] \<Rightarrow> None
      | l # ls \<Rightarrow> Some (str_join [newline] (take 3 (l # ls))))"
  by (rule scan_lines_dropWhile) simp

lemma error_message_take:
  "error_message err =
     take 200
       (if sublist (lit ''CellExecutionError'') (strip err) then
          (case scan_lines (str_split newline (strip err)) 0 (str_split newline (strip err)) of
             Some m \<Rightarrow> m | None \<Rightarrow> strip err)
        else strip err)"
  by (simp add: error_message_def Let_def py_slice_def)



lemma Path_a: "Path (lit ''a.ipynb'') = \<lparr>path_root = [], path_tail = [lit ''a.ipynb'']\<rparr>"
  by (simp add: Path_def splitroot_def lit_def)

lemma Path_b: "Path (lit ''b.ipynb'') = \<lparr>path_root = [], path_tail = [lit ''b.ipynb'']\<rparr>"
  by (simp add: Path_def splitroot_def lit_def)

lemma Path_c: "Path (lit ''c.ipynb'') = \<lparr>path_root = [], path_tail = [lit ''c.ipynb'']\<rparr>"
  by (simp add: Path_def splitroot_def lit_def)

section \<open>The inspector against its description\<close>

lemma py_get_Inr: "py_get v key dflt = Inr x \<Longrightarrow> x = field_or dflt key v"
  by (cases v) (auto simp: field_or_def)

lemma py_get_dict: "is_dict v \<Longrightarrow> py_get v key dflt = Inr (field_or dflt key v)"
  by (cases v) (auto simp: field_or_def is_dict_def)

lemma py_take_Inr: "py_take n v = Inr x \<Longrightarrow> x = truncated n v"
  by (cases v) (auto simp: truncated_def py_slice_def)

lemma py_take_str: "is_str v \<Longrightarrow> py_take n v = Inr (truncated n v)"
  by (cases v) (auto simp: truncated_def py_slice_def is_str_def)

lemma py_iter_Inr: "py_iter v = Inr xs \<Longrightarrow> xs = items v"
  by (simp add: items_def)

lemma scan_outputs_Inr:
  "scan_outputs i os errs = Inr ds \<Longrightarrow>
   ds = errs @ map (spec_descriptor i) (filter is_error_output os)"
proof (induction os arbitrary: errs)
  case Nil
  then show ?case by simp
next
  case (Cons outp rest)
  from Cons.prems obtain t where t: "py_get outp (lit ''output_type'') JNull = Inr t"
    by (auto split: sum.splits)
  then have t_eq: "t = field_or JNull (lit ''output_type'') outp" by (rule py_get_Inr)
  show ?case
  proof (cases "is_error_output outp")
    case True
    then have tt: "t = JStr (lit ''error'')" using t_eq by (simp add: is_error_output_def)
    from Cons.prems t tt obtain en v ev where
      en: "py_get outp (lit ''ename'') (JStr (lit ''Unknown'')) = Inr en" and
      v: "py_get outp (lit ''evalue'') (JStr []) = Inr v" and
      ev: "py_take 100 v = Inr ev" and
      rest: "scan_outputs i rest (errs @ [\<lparr>cell = i, ename = en, evalue = ev\<rparr>]) = Inr ds"
      by (auto split: sum.splits)
    have "\<lparr>cell = i, ename = en, evalue = ev\<rparr> = spec_descriptor i outp"
      using py_get_Inr[OF en] py_get_Inr[OF v] py_take_Inr[OF ev]
      by (simp add: spec_descriptor_def)
    with Cons.IH[OF rest] True show ?thesis by simp
  next
    case False
    then have "t \<noteq> JStr (lit ''error'')" using t_eq by (simp add: is_error_output_def)
    with Cons.prems t have "scan_outputs i rest errs = Inr ds" by simp
    with Cons.IH False show ?thesis by simp
  qed
qed

lemma scan_outputs_wf:
  "list_all wf_output os \<Longrightarrow>
   scan_outputs i os errs = Inr (errs @ map (spec_descriptor i) (filter is_error_output os))"
proof (induction os arbitrary: errs)
  case Nil
  then show ?case by simp
next
  case (Cons outp rest)
  then have wo: "wf_output outp" and r: "list_all wf_output rest"
    by simp_all
  from wo have d: "is_dict outp" by (simp add: wf_output_def)
  show ?case
  proof (cases "is_error_output outp")
    case True
    with wo have "is_str (field_or (JStr []) (lit ''evalue'') outp)"
      by (simp add: wf_output_def)
    with True d Cons.IH[OF r] show ?thesis
      by (simp add: py_get_dict py_take_str is_error_output_def[symmetric] spec_descriptor_def)
  next
    case False
    with d Cons.IH[OF r] show ?thesis
      by (simp add: py_get_dict is_error_output_def[symmetric])
  qed
qed

lemma descriptors_from_Nil [simp]: "spec_descriptors n [] = []"
  by (simp add: spec_descriptors_def)

lemma descriptors_from_Cons [simp]:
  "spec_descriptors n (c # cs) = spec_cell_descriptors n c @ spec_descriptors (Suc n) cs"
  by (simp add: spec_descriptors_def)

lemma scan_cells_Inr:
  "scan_cells i cs errs = Inr ds \<Longrightarrow>
   ds = errs @ spec_descriptors i cs"
proof (induction cs arbitrary: i errs)
  case Nil
  then show ?case by simp
next
  case (Cons c rest)
  from Cons.prems obtain t where t: "py_get c (lit ''cell_type'') JNull = Inr t"
    by (auto split: sum.splits)
  then have t_eq: "t = field_or JNull (lit ''cell_type'') c" by (rule py_get_Inr)
  show ?case
  proof (cases "is_code_cell c")
    case True
    then have tt: "t = JStr (lit ''code'')" using t_eq by (simp add: is_code_cell_def)
    from Cons.prems t tt obtain outs os errs' where
      outs: "py_get c (lit ''outputs'') (JArr []) = Inr outs" and
      os: "py_iter outs = Inr os" and
      inner: "scan_outputs i os errs = Inr errs'" and
      rest: "scan_cells (Suc i) rest errs' = Inr ds"
      by (auto split: sum.splits)
    have "os = outputs_of c"
      using py_get_Inr[OF outs] py_iter_Inr[OF os] by (simp add: outputs_of_def)
    with scan_outputs_Inr[OF inner] True have "errs' = errs @ spec_cell_descriptors i c"
      by (simp add: spec_cell_descriptors_def)
    with Cons.IH[OF rest] show ?thesis by simp
  next
    case False
    then have "t \<noteq> JStr (lit ''code'')" using t_eq by (simp add: is_code_cell_def)
    with Cons.prems t have "scan_cells (Suc i) rest errs = Inr ds" by simp
    with Cons.IH[OF this] False show ?thesis by (simp add: spec_cell_descriptors_def)
  qed
qed

lemma scan_cells_wf:
  "list_all wf_cell cs \<Longrightarrow>
   scan_cells i cs errs =
     Inr (errs @ spec_descriptors i cs)"
proof (induction cs arbitrary: i errs)
  case Nil
  then show ?case by simp
next
  case (Cons c rest)
  then have wc: "wf_cell c" and r: "list_all wf_cell rest"
    by simp_all
  from wc have d: "is_dict c" by (simp add: wf_cell_def)
  show ?case
  proof (cases "is_code_cell c")
    case True
    with wc obtain os where os: "field_or (JArr []) (lit ''outputs'') c = JArr os"
        "list_all wf_output os"
      by (auto simp: wf_cell_def split: json.splits)
    then have "outputs_of c = os" by (simp add: outputs_of_def items_def)
    with True d os Cons.IH[OF r] show ?thesis
      by (simp add: py_get_dict is_code_cell_def[symmetric] scan_outputs_wf spec_cell_descriptors_def)
  next
    case False
    with d Cons.IH[OF r] show ?thesis
      by (simp add: py_get_dict is_code_cell_def[symmetric] spec_cell_descriptors_def)
  qed
qed

lemma inspect_notebook_Inr:
  assumes "inspect_notebook nb = Inr ds"
  shows "ds = spec_descriptors 1 (cells_of nb)"
proof -
  from assms obtain cells cs where
    c: "py_get nb (lit ''cells'') (JArr []) = Inr cells" and
    i: "py_iter cells = Inr cs" and
    s: "scan_cells 1 cs [] = Inr ds"
    by (auto simp: inspect_notebook_def split: sum.splits)
  have "cs = cells_of nb"
    using py_get_Inr[OF c] py_iter_Inr[OF i] by (simp add: cells_of_def)
  with scan_cells_Inr[OF s] show ?thesis by simp
qed

lemma inspect_notebook_wf:
  assumes "wf_notebook nb"
  shows "inspect_notebook nb =
    Inr (spec_descriptors 1 (cells_of nb))"
proof -
  from assms obtain cs where d: "is_dict nb" and
    cs: "field_or (JArr []) (lit ''cells'') nb = JArr cs" "list_all wf_cell cs"
    by (auto simp: wf_notebook_def split: json.splits)
  then have "cells_of nb = cs" by (simp add: cells_of_def items_def)
  with d cs show ?thesis
    by (simp add: inspect_notebook_def py_get_dict scan_cells_wf)
qed

lemma set_descriptors_from:
  "set (spec_descriptors n cs) = (\<Union>k<length cs. set (spec_cell_descriptors (n + k) (cs ! k)))"
proof (induction cs arbitrary: n)
  case Nil
  then show ?case by simp
next
  case (Cons x xs)
  have "(\<Union>k<Suc (length xs). set (spec_cell_descriptors (n + k) ((x # xs) ! k))) =
        set (spec_cell_descriptors n x) \<union> (\<Union>k<length xs. set (spec_cell_descriptors (Suc n + k) (xs ! k)))"
    by (simp add: lessThan_Suc_eq_insert_0 image_image)
  with Cons.IH[of "Suc n"] show ?case by simp
qed

lemma cell_of_cell_descriptors: "d \<in> set (spec_cell_descriptors i c) \<Longrightarrow> cell d = i"
  by (auto simp: spec_cell_descriptors_def spec_descriptor_def split: if_splits)

lemma cells_lower_bound:
  assumes "d \<in> set (spec_descriptors n cs)"
  shows "n \<le> cell d"
proof -
  from assms obtain k where "d \<in> set (spec_cell_descriptors (n + k) (cs ! k))"
    unfolding set_descriptors_from by blast
  then show ?thesis by (auto dest: cell_of_cell_descriptors)
qed

lemma map_cell_cell_descriptors:
  "map cell (spec_cell_descriptors n c) = replicate (length (spec_cell_descriptors n c)) n"
  by (simp add: spec_cell_descriptors_def spec_descriptor_def comp_def map_replicate_const)

lemma sorted_cells: "sorted (map cell (spec_descriptors n cs))"
proof (induction cs arbitrary: n)
  case Nil
  then show ?case by simp
next
  case (Cons c cs)
  have 1: "sorted (map cell (spec_cell_descriptors n c))"
    by (simp only: map_cell_cell_descriptors sorted_replicate)
  have 2: "cell x \<le> cell y"
    if "x \<in> set (spec_cell_descriptors n c)" "y \<in> set (spec_descriptors (Suc n) cs)" for x y
    using cell_of_cell_descriptors[OF that(1)] cells_lower_bound[OF that(2)] by simp
  have "sorted (map cell (spec_cell_descriptors n c) @ map cell (spec_descriptors (Suc n) cs))"
    unfolding sorted_append using 1 2 Cons.IH[of "Suc n"] by auto
  then show ?case by simp
qed

lemma inspect_example:
  "inspect_notebook example_notebook =
     Inr [\<lparr>cell = 2, ename = JStr (lit ''ZeroDivisionError''),
           evalue = JStr (lit ''division by zero'')\<rparr>]"
  by (simp add: inspect_notebook_def example_notebook_def lit_def py_slice_def)

lemma inspect_scenario:
  "inspect_notebook scenario_notebook =
     Inr [\<lparr>cell = 1, ename = JStr (lit ''ValueError''), evalue = JStr (lit ''bad input'')\<rparr>]"
  by (simp add: inspect_notebook_def scenario_notebook_def lit_def py_slice_def)


lemma wf_cells_of:
  assumes "wf_notebook nb" "c \<in> set (cells_of nb)"
  shows "wf_cell c"
  using assms
  by (auto simp: wf_notebook_def cells_of_def items_def list_all_iff split: json.splits)

lemma wf_outputs_of:
  assumes "wf_cell c" "is_code_cell c" "outp \<in> set (outputs_of c)"
  shows "wf_output outp"
  using assms
  by (auto simp: wf_cell_def outputs_of_def items_def list_all_iff split: json.splits)


lemma wf_scenario: "wf_notebook scenario_notebook"
  by (simp add: wf_notebook_def wf_cell_def wf_output_def scenario_notebook_def is_dict_def
      is_str_def field_or_def is_code_cell_def is_error_output_def lit_def)

section \<open>The loop and its history\<close>

lemma encodable_ascii: "c < 128 \<Longrightarrow> encodable env c"
  by (simp add: encodable_def)

lemma ascii_encodable: "list_all (\<lambda>c. c < 128) s \<Longrightarrow> list_all (encodable env) s"
  by (simp add: list_all_iff encodable_def)

lemma str_nat_ascii: "list_all (\<lambda>c. c < 128) (str_nat n)"
proof (induction n rule: str_nat.induct)
  case (1 n)
  show ?case
  proof (cases "n < 10")
    case True
    then show ?thesis by (simp add: str_nat.simps[of n])
  next
    case False
    have "n mod 10 < 10" by simp
    then have "48 + n mod 10 < 128" by linarith
    with False "1" show ?thesis by (simp add: str_nat.simps[of n])
  qed
qed

lemma str_nat_encodable [simp]: "list_all (encodable env) (str_nat n)"
  by (rule ascii_encodable) (rule str_nat_ascii)

lemma newline_encodable [simp]: "encodable env newline"
  by (simp add: encodable_def newline_def)

lemma py_write_eq:
  "py_write env s st =
     (if list_all (encodable env) s then (None, st\<lparr>stdout := stdout st @ s\<rparr>)
      else (Some UnicodeEncodeError, st))"
  by (simp add: py_write_def)

lemma py_print_eq:
  "py_print env s st =
     (if list_all (encodable env) s then (None, st\<lparr>stdout := stdout st @ s @ [newline]\<rparr>)
      else (Some UnicodeEncodeError, st))"
  by (simp add: py_print_def py_print_end_def and_then_def py_write_def)

lemma py_print_end_space:
  "py_print_end env s (lit '' '') st =
     (if list_all (encodable env) s then (None, st\<lparr>stdout := stdout st @ s @ lit '' ''\<rparr>)
      else (Some UnicodeEncodeError, st))"
  by (simp add: py_print_end_def and_then_def py_write_def lit_def encodable_def)

lemma error_line_encodable:
  "list_all (encodable env) (error_line env err) \<longleftrightarrow>
   list_all (encodable env) (format_value env (ename err)) \<and>
   list_all (encodable env) (format_value env (evalue err))"
  by (auto simp: error_line_def lit_def encodable_def newline_def)

lemma print_errors_cases:
  "print_errors env errs st = (x, st') \<Longrightarrow>
   \<exists>part. st' = st\<lparr>stdout := stdout st @ part\<rparr> \<and>
     prefix part (concat (map (error_line env) errs)) \<and>
     (case x of
        None \<Rightarrow> part = concat (map (error_line env) errs) \<and>
                list_all (encodable env) (concat (map (error_line env) errs))
      | Some e \<Rightarrow> e = UnicodeEncodeError \<and>
                \<not> list_all (encodable env) (concat (map (error_line env) errs)))"
proof (induction errs arbitrary: st)
  case Nil
  then show ?case by (intro exI[of _ "[]"]) auto
next
  case (Cons err errs)
  define body where "body = lit ''   Cell '' @ str_nat (cell err) @ lit '': '' @
      format_value env (ename err) @ lit '': '' @ format_value env (evalue err)"
  have line: "error_line env err = body @ [newline]"
    by (simp add: error_line_def body_def)
  have unfold: "print_errors env (err # errs) st =
      and_then (py_print env body) (print_errors env errs) st"
    by (simp add: body_def)
  have enc: "list_all (encodable env) (error_line env err) \<longleftrightarrow> list_all (encodable env) body"
    by (simp add: line)
  show ?case
  proof (cases "list_all (encodable env) body")
    case False
    with Cons.prems have "x = Some UnicodeEncodeError" "st' = st"
      unfolding unfold by (simp_all add: and_then_def py_print_eq)
    with False enc show ?thesis by (intro exI[of _ "[]"]) auto
  next
    case True
    let ?st1 = "st\<lparr>stdout := stdout st @ error_line env err\<rparr>"
    from True Cons.prems have "print_errors env errs ?st1 = (x, st')"
      unfolding unfold by (simp add: and_then_def py_print_eq line)
    from Cons.IH[OF this] obtain part where part:
      "st' = ?st1\<lparr>stdout := stdout ?st1 @ part\<rparr>"
      "prefix part (concat (map (error_line env) errs))"
      "case x of
        None \<Rightarrow> part = concat (map (error_line env) errs) \<and>
                list_all (encodable env) (concat (map (error_line env) errs))
      | Some e \<Rightarrow> e = UnicodeEncodeError \<and>
                \<not> list_all (encodable env) (concat (map (error_line env) errs))"
      by blast
    have enc_line: "list_all (encodable env) (error_line env err)" using True enc by simp
    show ?thesis
      using part enc_line
      by (intro exI[of _ "error_line env err @ part"]) (auto split: option.splits)
  qed
qed


lemma report_Inspected_errors:
  "errors \<noteq> [] \<Longrightarrow>
   report env (Inspected p (Inr errors)) =
     ([cross_mark] @ lit '' '' @ path_name p @ lit '': '' @ str_nat (length errors) @
      lit '' error(s)'') @ [newline] @ concat (map (error_line env) errors)"
  by simp

lemma report_Inspected_clean:
  "report env (Inspected p (Inr [])) =
     ([check_mark] @ lit '' '' @ path_name p @ lit '': OK'') @ [newline]"
  by simp

lemma process_notebook_check:
  assumes "process_notebook env True nb st = (x, st')"
  defines "ev \<equiv> Inspected nb (check_saved_outputs env nb (world st))"
  shows "\<exists>part. st' = st\<lparr>stdout := stdout st @ part,
                        all_passed := all_passed st \<and> \<not> event_failed ev,
                        history := history st @ [ev]\<rparr> \<and>
           prefix part (report env ev) \<and>
           (case x of
              None \<Rightarrow> event_ok env ev \<and> part = report env ev
            | Some e \<Rightarrow> event_exn ev = Some e \<or>
                (event_exn ev = None \<and> e = UnicodeEncodeError \<and> \<not> event_printable env ev))"
proof (cases "check_saved_outputs env nb (world st)")
  case (Inl e)
  with assms(1) have "x = Some e" "st' = st\<lparr>history := history st @ [ev]\<rparr>"
    by (auto simp: process_notebook_def ev_def)
  with Inl show ?thesis by (intro exI[of _ "[]"]) (simp add: ev_def)
next
  case (Inr errors)
  show ?thesis
  proof (cases "errors = []")
    case True
    define body where "body = [check_mark] @ lit '' '' @ path_name nb @ lit '': OK''"
    have rep: "report env ev = body @ [newline]"
      using Inr True by (simp add: ev_def body_def)
    have run: "process_notebook env True nb st =
        py_print env body (st\<lparr>history := history st @ [ev]\<rparr>)"
      using Inr True by (simp add: process_notebook_def ev_def body_def)
    have fl: "\<not> event_failed ev" "event_exn ev = None"
      using Inr True by (simp_all add: ev_def)
    show ?thesis
    proof (cases "list_all (encodable env) body")
      case enc: True
      with assms(1) have "x = None"
          "st' = st\<lparr>stdout := stdout st @ report env ev, history := history st @ [ev]\<rparr>"
        unfolding run by (auto simp: py_print_eq rep)
      with fl enc show ?thesis
        by (intro exI[of _ "report env ev"])
           (simp add: event_ok_def event_printable_def rep)
    next
      case enc: False
      with assms(1) have "x = Some UnicodeEncodeError"
          "st' = st\<lparr>history := history st @ [ev]\<rparr>"
        unfolding run by (auto simp: py_print_eq)
      with fl enc show ?thesis
        by (intro exI[of _ "[]"]) (simp add: event_printable_def rep)
    qed
  next
    case False
    define body where "body = [cross_mark] @ lit '' '' @ path_name nb @ lit '': '' @
        str_nat (length errors) @ lit '' error(s)''"
    define tail where "tail = concat (map (error_line env) errors)"
    have rep: "report env ev = body @ [newline] @ tail"
      using Inr False by (simp add: ev_def body_def tail_def)
    have run: "process_notebook env True nb st =
        and_then (py_print env body) (print_errors env errors)
          (st\<lparr>history := history st @ [ev], all_passed := False\<rparr>)"
      using Inr False by (simp add: process_notebook_def ev_def body_def)
    have fl: "event_failed ev" "event_exn ev = None"
      using Inr False by (simp_all add: ev_def)
    show ?thesis
    proof (cases "list_all (encodable env) body")
      case enc: False
      with assms(1) have "x = Some UnicodeEncodeError"
          "st' = st\<lparr>history := history st @ [ev], all_passed := False\<rparr>"
        unfolding run by (auto simp: py_print_eq and_then_def)
      with fl enc show ?thesis
        by (intro exI[of _ "[]"]) (simp add: event_printable_def rep)
    next
      case enc: True
      let ?st1 = "st\<lparr>history := history st @ [ev], all_passed := False,
                     stdout := stdout st @ body @ [newline]\<rparr>"
      from enc assms(1) have "print_errors env errors ?st1 = (x, st')"
        unfolding run by (auto simp: py_print_eq and_then_def)
      from print_errors_cases[OF this] obtain part where part:
        "st' = ?st1\<lparr>stdout := stdout ?st1 @ part\<rparr>"
        "prefix part tail"
        "case x of
          None \<Rightarrow> part = tail \<and> list_all (encodable env) tail
        | Some e \<Rightarrow> e = UnicodeEncodeError \<and> \<not> list_all (encodable env) tail"
        unfolding tail_def by blast
      show ?thesis
        using part fl enc
        by (intro exI[of _ "body @ [newline] @ part"])
           (auto simp: rep event_ok_def event_printable_def split: option.splits)
    qed
  qed
qed


lemma running_encodable:
  "list_all (encodable env) (lit ''  Running '' @ name @ lit ''...'') \<longleftrightarrow>
   list_all (encodable env) name"
  by (simp add: lit_def encodable_def)

lemma report_Ran:
  "report env (Ran p r) =
     (lit ''  Running '' @ path_name p @ lit ''...'') @ lit '' '' @
     (case r of
        Inl e \<Rightarrow> []
      | Inr (success, error) \<Rightarrow>
          if success then [check_mark, newline]
          else [cross_mark, newline] @ lit ''    Error: '' @ error @ [newline])"
  by (simp add: lit_def)

lemma process_notebook_exec:
  assumes "process_notebook env False nb st = (x, st')"
  defines "ev \<equiv> Ran nb (fst (run_notebook env nb (world st)))"
  shows "(\<not> list_all (encodable env) (path_name nb) \<and> x = Some UnicodeEncodeError \<and> st' = st) \<or>
         (list_all (encodable env) (path_name nb) \<and>
          (\<exists>part. st' = st\<lparr>world := snd (run_notebook env nb (world st)),
                        stdout := stdout st @ part,
                        all_passed := all_passed st \<and> \<not> event_failed ev,
                        history := history st @ [ev]\<rparr> \<and>
           prefix part (report env ev) \<and>
           (case x of
              None \<Rightarrow> event_ok env ev \<and> part = report env ev
            | Some e \<Rightarrow> event_exn ev = Some e \<or>
                (event_exn ev = None \<and> e = UnicodeEncodeError \<and> \<not> event_printable env ev))))"
proof (cases "list_all (encodable env) (path_name nb)")
  case False
  then have "py_print_end env (lit ''  Running '' @ path_name nb @ lit ''...'') (lit '' '') st =
      (Some UnicodeEncodeError, st)"
    unfolding py_print_end_space running_encodable by simp
  with assms(1) False show ?thesis
    by (auto simp: process_notebook_def and_then_def)
next
  case name: True
  define pre where "pre = (lit ''  Running '' @ path_name nb @ lit ''...'') @ lit '' ''"
  have pre_enc: "list_all (encodable env) pre"
    using name by (simp add: pre_def lit_def encodable_def)
  obtain r w' where run: "run_notebook env nb (world st) = (r, w')"
    by (cases "run_notebook env nb (world st)")
  have ev: "ev = Ran nb r" by (simp add: ev_def run)
  have pe: "py_print_end env (lit ''  Running '' @ path_name nb @ lit ''...'') (lit '' '') st =
      (None, st\<lparr>stdout := stdout st @ pre\<rparr>)"
    unfolding py_print_end_space running_encodable pre_def using name by simp
  let ?st1 = "st\<lparr>stdout := stdout st @ pre, world := w', history := history st @ [ev]\<rparr>"
  have step: "process_notebook env False nb st =
      (case r of
         Inl e \<Rightarrow> (Some e, ?st1)
       | Inr (success, error) \<Rightarrow>
           if success then py_print env [check_mark] ?st1
           else and_then (py_print env [cross_mark])
                  (py_print env (lit ''    Error: '' @ error)) (?st1\<lparr>all_passed := False\<rparr>))"
    by (simp add: process_notebook_def pe and_then_def run ev split: sum.splits prod.splits)
  have "\<exists>part. st' = st\<lparr>world := w',
                        stdout := stdout st @ part,
                        all_passed := all_passed st \<and> \<not> event_failed ev,
                        history := history st @ [ev]\<rparr> \<and>
           prefix part (report env ev) \<and>
           (case x of
              None \<Rightarrow> event_ok env ev \<and> part = report env ev
            | Some e \<Rightarrow> event_exn ev = Some e \<or>
                (event_exn ev = None \<and> e = UnicodeEncodeError \<and> \<not> event_printable env ev))"
  proof (cases r)
    case (Inl e)
    have rep: "report env ev = pre" unfolding ev report_Ran pre_def using Inl by simp
    have fl: "\<not> event_failed ev" "event_exn ev = Some e"
      using Inl by (simp_all add: ev)
    from assms(1) Inl have "x = Some e" "st' = ?st1" unfolding step by auto
    with fl show ?thesis
      by (intro exI[of _ pre]) (simp add: rep)
  next
    case (Inr res)
    obtain success error where res: "res = (success, error)" by (cases res)
    show ?thesis
    proof (cases success)
      case True
      have rep: "report env ev = pre @ [check_mark, newline]"
        unfolding ev report_Ran pre_def using Inr res True by simp
      have fl: "\<not> event_failed ev" "event_exn ev = None"
        using Inr res True by (simp_all add: ev)
      from assms(1) Inr res True have p: "py_print env [check_mark] ?st1 = (x, st')"
        unfolding step by simp
      show ?thesis
      proof (cases "encodable env check_mark")
        case enc: True
        with p have "x = None" "st' = ?st1\<lparr>stdout := stdout ?st1 @ [check_mark, newline]\<rparr>"
          by (auto simp: py_print_eq)
        with fl enc pre_enc show ?thesis
          by (intro exI[of _ "pre @ [check_mark, newline]"])
             (simp add: rep event_ok_def event_printable_def)
      next
        case enc: False
        with p have "x = Some UnicodeEncodeError" "st' = ?st1"
          by (auto simp: py_print_eq)
        with fl enc show ?thesis
          by (intro exI[of _ pre]) (simp add: rep event_printable_def)
      qed
    next
      case False
      define msg where "msg = lit ''    Error: '' @ error"
      have rep: "report env ev = pre @ [cross_mark, newline] @ msg @ [newline]"
        unfolding ev report_Ran pre_def msg_def using Inr res False by simp
      have fl: "event_failed ev" "event_exn ev = None"
        using Inr res False by (simp_all add: ev)
      from assms(1) Inr res False have p:
        "and_then (py_print env [cross_mark]) (py_print env msg) (?st1\<lparr>all_passed := False\<rparr>) =
           (x, st')"
        unfolding step msg_def by simp
      show ?thesis
      proof (cases "encodable env cross_mark")
        case enc: False
        with p have "x = Some UnicodeEncodeError" "st' = ?st1\<lparr>all_passed := False\<rparr>"
          by (auto simp: py_print_eq and_then_def)
        with fl enc show ?thesis
          by (intro exI[of _ pre]) (simp add: rep event_printable_def)
      next
        case enc: True
        show ?thesis
        proof (cases "list_all (encodable env) msg")
          case m: True
          with enc p have "x = None"
            "st' = ?st1\<lparr>all_passed := False,
                     stdout := stdout ?st1 @ [cross_mark, newline] @ msg @ [newline]\<rparr>"
            by (auto simp: py_print_eq and_then_def)
          with fl enc m pre_enc show ?thesis
            by (intro exI[of _ "pre @ [cross_mark, newline] @ msg @ [newline]"])
               (simp add: rep event_ok_def event_printable_def)
        next
          case m: False
          with enc p have "x = Some UnicodeEncodeError"
            "st' = ?st1\<lparr>all_passed := False,
                     stdout := stdout ?st1 @ [cross_mark, newline]\<rparr>"
            by (auto simp: py_print_eq and_then_def)
          with fl enc m show ?thesis
            by (intro exI[of _ "pre @ [cross_mark, newline]"])
               (simp add: rep event_printable_def)
        qed
      qed
    qed
  qed
  with name run show ?thesis by simp
qed


lemma process_notebook_step:
  assumes "process_notebook env c nb st = (x, st')"
  defines "ev \<equiv> step_event env c nb (world st)"
  shows "(\<not> c \<and> \<not> list_all (encodable env) (path_name nb) \<and>
          x = Some UnicodeEncodeError \<and> st' = st) \<or>
         ((c \<or> list_all (encodable env) (path_name nb)) \<and>
          (\<exists>part. st' = st\<lparr>world := step_world env c nb (world st),
                        stdout := stdout st @ part,
                        all_passed := all_passed st \<and> \<not> event_failed ev,
                        history := history st @ [ev]\<rparr> \<and>
           prefix part (report env ev) \<and>
           (case x of
              None \<Rightarrow> event_ok env ev \<and> part = report env ev
            | Some e \<Rightarrow> event_exn ev = Some e \<or>
                (event_exn ev = None \<and> e = UnicodeEncodeError \<and> \<not> event_printable env ev))))"
proof (cases c)
  case True
  have e: "step_event env c nb (world st) = Inspected nb (check_saved_outputs env nb (world st))"
    using True by (simp add: step_event_def)
  have w: "st\<lparr>world := step_world env c nb (world st), stdout := a, all_passed := b,
              history := h\<rparr> = st\<lparr>stdout := a, all_passed := b, history := h\<rparr>" for a b h
    using True by (simp add: step_world_def)
  from True assms(1) have "process_notebook env True nb st = (x, st')" by simp
  from process_notebook_check[OF this] True show ?thesis
    unfolding ev_def e w by blast
next
  case False
  have e: "step_event env c nb (world st) = Ran nb (fst (run_notebook env nb (world st)))"
    using False by (simp add: step_event_def)
  have w: "step_world env c nb (world st) = snd (run_notebook env nb (world st))"
    using False by (simp add: step_world_def)
  from False assms(1) have "process_notebook env False nb st = (x, st')" by simp
  from process_notebook_exec[OF this] False show ?thesis
    unfolding ev_def e w by blast
qed

lemma step_event_path [simp]: "event_path (step_event env c nb w) = nb"
  by (simp add: step_event_def)

lemma step_event_is_inspection [simp]: "is_inspection (step_event env c nb w) = c"
  by (simp add: step_event_def)

lemma process_notebooks_trace:
  "process_notebooks env c nbs st = (x, st') \<Longrightarrow>
   \<exists>evs out.
     history st' = history st @ evs \<and>
     stdout st' = stdout st @ out \<and>
     all_passed st' = (all_passed st \<and> (\<forall>ev\<in>set evs. \<not> event_failed ev)) \<and>
     map event_path evs = take (length evs) nbs \<and>
     (\<forall>ev\<in>set evs. \<exists>w0. ev = step_event env c (event_path ev) w0) \<and>
     (evs \<noteq> [] \<longrightarrow> hd evs = step_event env c (hd nbs) (world st)) \<and>
     (c \<longrightarrow> world st' = world st \<and>
        (\<forall>ev\<in>set evs. ev = step_event env c (event_path ev) (world st))) \<and>
     (\<forall>ev\<in>set (butlast evs). event_ok env ev) \<and>
     prefix (concat (map (report env) (butlast evs))) out \<and>
     prefix out (concat (map (report env) evs)) \<and>
     (case x of
        None \<Rightarrow> length evs = length nbs \<and> (\<forall>ev\<in>set evs. event_ok env ev) \<and>
                out = concat (map (report env) evs)
      | Some e \<Rightarrow>
          (evs \<noteq> [] \<and> event_exn (last evs) = Some e) \<or>
          (e = UnicodeEncodeError \<and> evs \<noteq> [] \<and> event_exn (last evs) = None \<and>
           \<not> event_printable env (last evs)) \<or>
          (e = UnicodeEncodeError \<and> \<not> c \<and> length evs < length nbs \<and>
           \<not> list_all (encodable env) (path_name (nbs ! length evs)) \<and>
           (\<forall>ev\<in>set evs. event_ok env ev) \<and> out = concat (map (report env) evs)))"
proof (induction nbs arbitrary: st)
  case Nil
  then show ?case by (intro exI[of _ "[]"]) auto
next
  case (Cons nb rest)
  let ?ev = "step_event env c nb (world st)"
  obtain x1 st1 where first: "process_notebook env c nb st = (x1, st1)"
    by (cases "process_notebook env c nb st")
  note step = process_notebook_step[OF first]
  show ?case
  proof (cases "\<not> c \<and> \<not> list_all (encodable env) (path_name nb)")
    case True
    with step have "x1 = Some UnicodeEncodeError" "st1 = st" by auto
    with Cons.prems first have "x = Some UnicodeEncodeError" "st' = st"
      by (auto simp: and_then_def)
    with True show ?thesis
      by (intro exI[of _ "[]"]) auto
  next
    case False
    with step obtain part where part:
      "st1 = st\<lparr>world := step_world env c nb (world st),
                stdout := stdout st @ part,
                all_passed := all_passed st \<and> \<not> event_failed ?ev,
                history := history st @ [?ev]\<rparr>"
      "prefix part (report env ?ev)"
      "case x1 of
          None \<Rightarrow> event_ok env ?ev \<and> part = report env ?ev
        | Some e \<Rightarrow> event_exn ?ev = Some e \<or>
            (event_exn ?ev = None \<and> e = UnicodeEncodeError \<and> \<not> event_printable env ?ev)"
      by blast
    show ?thesis
    proof (cases x1)
      case (Some e)
      with Cons.prems first have "x = Some e" "st' = st1"
        by (auto simp: and_then_def)
      with part Some show ?thesis
        by (intro exI[of _ "[?ev]"] exI[of _ part]) (auto simp: step_world_def)
    next
      case None
      with part have ok: "event_ok env ?ev" and p: "part = report env ?ev" by simp_all
      from None Cons.prems first have "process_notebooks env c rest st1 = (x, st')"
        by (auto simp: and_then_def)
      from Cons.IH[OF this] obtain evs out where evs:
        "history st' = history st1 @ evs"
        "stdout st' = stdout st1 @ out"
        "all_passed st' = (all_passed st1 \<and> (\<forall>ev\<in>set evs. \<not> event_failed ev))"
        "map event_path evs = take (length evs) rest"
        "\<forall>ev\<in>set evs. \<exists>w0. ev = step_event env c (event_path ev) w0"
        "evs \<noteq> [] \<longrightarrow> hd evs = step_event env c (hd rest) (world st1)"
        "c \<longrightarrow> world st' = world st1 \<and>
           (\<forall>ev\<in>set evs. ev = step_event env c (event_path ev) (world st1))"
        "\<forall>ev\<in>set (butlast evs). event_ok env ev"
        "prefix (concat (map (report env) (butlast evs))) out"
        "prefix out (concat (map (report env) evs))"
        "case x of
          None \<Rightarrow> length evs = length rest \<and> (\<forall>ev\<in>set evs. event_ok env ev) \<and>
                  out = concat (map (report env) evs)
        | Some e \<Rightarrow>
            (evs \<noteq> [] \<and> event_exn (last evs) = Some e) \<or>
            (e = UnicodeEncodeError \<and> evs \<noteq> [] \<and> event_exn (last evs) = None \<and>
             \<not> event_printable env (last evs)) \<or>
            (e = UnicodeEncodeError \<and> \<not> c \<and> length evs < length rest \<and>
             \<not> list_all (encodable env) (path_name (rest ! length evs)) \<and>
             (\<forall>ev\<in>set evs. event_ok env ev) \<and> out = concat (map (report env) evs))"
        by blast
      let ?evs = "?ev # evs"
      let ?out = "report env ?ev @ out"
      have 1: "history st' = history st @ ?evs" using evs(1) part(1) by simp
      have 2: "stdout st' = stdout st @ ?out" using evs(2) part(1) p by simp
      have 3: "all_passed st' = (all_passed st \<and> (\<forall>ev\<in>set ?evs. \<not> event_failed ev))"
        using evs(3) part(1) by auto
      have 4: "map event_path ?evs = take (length ?evs) (nb # rest)"
        using evs(4) by simp
      have 5: "\<forall>ev\<in>set ?evs. \<exists>w0. ev = step_event env c (event_path ev) w0"
        using evs(5) by auto
      have 6: "?evs \<noteq> [] \<longrightarrow> hd ?evs = step_event env c (hd (nb # rest)) (world st)"
        by simp
      have 7: "c \<longrightarrow> world st' = world st \<and>
          (\<forall>ev\<in>set ?evs. ev = step_event env c (event_path ev) (world st))"
        using evs(7) part(1) by (auto simp: step_world_def)
      have 8: "\<forall>ev\<in>set (butlast ?evs). event_ok env ev"
        using evs(8) ok by (auto split: if_splits)
      have 9: "prefix (concat (map (report env) (butlast ?evs))) ?out"
        using evs(9) by (cases "evs = []") auto
      have 10: "prefix ?out (concat (map (report env) ?evs))"
        using evs(10) by simp
      have 11: "case x of
          None \<Rightarrow> length ?evs = length (nb # rest) \<and> (\<forall>ev\<in>set ?evs. event_ok env ev) \<and>
                  ?out = concat (map (report env) ?evs)
        | Some e \<Rightarrow>
            (?evs \<noteq> [] \<and> event_exn (last ?evs) = Some e) \<or>
            (e = UnicodeEncodeError \<and> ?evs \<noteq> [] \<and> event_exn (last ?evs) = None \<and>
             \<not> event_printable env (last ?evs)) \<or>
            (e = UnicodeEncodeError \<and> \<not> c \<and> length ?evs < length (nb # rest) \<and>
             \<not> list_all (encodable env) (path_name ((nb # rest) ! length ?evs)) \<and>
             (\<forall>ev\<in>set ?evs. event_ok env ev) \<and> ?out = concat (map (report env) ?evs))"
      proof (cases x)
        case None
        with evs(11) ok show ?thesis by simp
      next
        case (Some e)
        with evs(11) ok show ?thesis by (cases "evs = []") auto
      qed
      from 1 2 3 4 5 6 7 8 9 10 11 show ?thesis
        by (intro exI[of _ ?evs] exI[of _ ?out] conjI)
    qed
  qed
qed

lemma length_sorted_paths [simp]: "length (sorted_paths v ps) = length ps"
  by (simp add: sorted_paths_def)

lemma set_sorted_paths [simp]: "set (sorted_paths v ps) = set ps"
  by (simp add: sorted_paths_def)

lemma sorted_paths_Nil_iff [simp]: "sorted_paths v ps = [] \<longleftrightarrow> ps = []"
  by (metis length_0_conv length_sorted_paths)

lemma event_failed_not_passed: "event_failed ev \<Longrightarrow> \<not> event_passed ev"
  by (cases ev) (auto split: sum.splits prod.splits)

lemma event_passed_iff: "event_passed ev \<longleftrightarrow> event_exn ev = None \<and> \<not> event_failed ev"
  by (cases ev) (auto split: sum.splits prod.splits)

lemma passed_printable_check_mark:
  assumes "event_passed ev" "event_printable env ev"
  shows "encodable env check_mark"
proof (cases ev)
  case (Ran p r)
  with assms show ?thesis
    by (auto simp: event_printable_def split: sum.splits prod.splits)
next
  case (Inspected p r)
  with assms show ?thesis
    by (auto simp: event_printable_def split: sum.splits)
qed


lemma header_encodable: "list_all (encodable env) (header c n)"
proof -
  have "list_all (encodable env) (str_nat n)" by simp
  then show ?thesis
    by (simp add: header_def lit_def encodable_def newline_def)
qed

lemma print_header:
  "py_print env ((if c then lit ''Checking saved outputs'' else lit ''Running'') @ lit '' '' @
       str_nat n @ lit '' notebook(s)...'' @ [newline])
     \<lparr>world = w, stdout = [], all_passed = True, history = []\<rparr> =
   (None, initial_state c n w)"
proof -
  have "list_all (encodable env) ((if c then lit ''Checking saved outputs'' else lit ''Running'') @
      lit '' '' @ str_nat n @ lit '' notebook(s)...'' @ [newline])"
    using header_encodable[of env c n] by (simp add: header_def)
  then show ?thesis
    unfolding py_print_eq by (simp add: initial_state_def header_def)
qed

lemma main_empty:
  assumes "target_notebooks env argv w = []"
  shows "main env argv w =
    (Inr 0, \<lparr>world = w, stdout = lit ''No notebooks found.\<newline>'', all_passed = True,
              history = []\<rparr>)"
proof -
  have "list_all (encodable env) (lit ''No notebooks found.'')"
    by (simp add: lit_def encodable_def)
  then have "py_print env (lit ''No notebooks found.'')
      \<lparr>world = w, stdout = [], all_passed = True, history = []\<rparr> =
      (None, \<lparr>world = w, stdout = lit ''No notebooks found.\<newline>'', all_passed = True,
              history = []\<rparr>)"
    unfolding py_print_eq by (simp add: lit_def newline_def)
  with assms show ?thesis by (simp add: main_def returning_def)
qed

lemma main_loop:
  assumes "target_notebooks env argv w \<noteq> []"
    and "process_notebooks env (lit ''--check'' \<in> set argv)
           (sorted_paths (py312 env) (target_notebooks env argv w))
           (initial_state (lit ''--check'' \<in> set argv) (length (target_notebooks env argv w)) w)
         = (x, st')"
  shows "main env argv w =
      (case x of
         Some e \<Rightarrow> (Inl e, st')
       | None \<Rightarrow>
           if all_passed st' then
             (if encodable env check_mark
              then (Inr 0, st'\<lparr>stdout := stdout st' @ summary True\<rparr>)
              else (Inl UnicodeEncodeError, st'\<lparr>stdout := stdout st' @ [newline]\<rparr>))
           else (Inr 1, st'\<lparr>stdout := stdout st' @ summary False\<rparr>))"
proof -
  have ok: "list_all (encodable env) (lit ''All notebooks passed! '' @ [check_mark]) \<longleftrightarrow>
      encodable env check_mark"
    by (simp add: lit_def encodable_def)
  have bad: "list_all (encodable env) (lit ''Some notebooks have errors.'')"
    by (simp add: lit_def encodable_def)
  have p1: "py_print env [] s = (None, s\<lparr>stdout := stdout s @ [newline]\<rparr>)" for s
    by (simp add: py_print_eq)
  have p2: "py_print env (lit ''All notebooks passed! '' @ [check_mark]) s =
      (if encodable env check_mark
       then (None, s\<lparr>stdout := stdout s @ lit ''All notebooks passed! '' @ [check_mark, newline]\<rparr>)
       else (Some UnicodeEncodeError, s))" for s
    unfolding py_print_eq ok by simp
  have p3: "py_print env (lit ''Some notebooks have errors.'') s =
      (None, s\<lparr>stdout := stdout s @ lit ''Some notebooks have errors.'' @ [newline]\<rparr>)" for s
    unfolding py_print_eq using bad by simp
  show ?thesis
    using assms
    unfolding main_def Let_def print_header
    by (simp add: returning_def p1 p2 p3 summary_def del: process_notebooks.simps
        split: option.splits)
qed

lemma main_trace:
  assumes "target_notebooks env argv w \<noteq> []" and "main env argv w = (r, st)"
  shows "\<exists>out.
     stdout st = header (lit ''--check'' \<in> set argv) (length (target_notebooks env argv w)) @ out \<and>
     prefix (concat (map (report env) (butlast (history st)))) out \<and>
     (case r of
        Inl e \<Rightarrow> prefix out (concat (map (report env) (history st)) @ [newline])
      | Inr n \<Rightarrow> out = concat (map (report env) (history st)) @ summary (n = 0)) \<and>
     map event_path (history st) =
       take (length (history st)) (sorted_paths (py312 env) (target_notebooks env argv w)) \<and>
     (\<forall>ev\<in>set (history st).
        \<exists>w0. ev = step_event env (lit ''--check'' \<in> set argv) (event_path ev) w0) \<and>
     (history st \<noteq> [] \<longrightarrow>
        hd (history st) = step_event env (lit ''--check'' \<in> set argv)
          (hd (sorted_paths (py312 env) (target_notebooks env argv w))) w) \<and>
     (lit ''--check'' \<in> set argv \<longrightarrow> world st = w \<and>
        (\<forall>ev\<in>set (history st). ev = step_event env True (event_path ev) w)) \<and>
     (\<forall>ev\<in>set (butlast (history st)). event_ok env ev) \<and>
     all_passed st = (\<forall>ev\<in>set (history st). \<not> event_failed ev) \<and>
     (case r of
        Inr n \<Rightarrow>
          length (history st) = length (target_notebooks env argv w) \<and>
          (\<forall>ev\<in>set (history st). event_ok env ev) \<and>
          n = (if \<forall>ev\<in>set (history st). \<not> event_failed ev then 0 else 1)
      | Inl e \<Rightarrow>
          (history st \<noteq> [] \<and> event_exn (last (history st)) = Some e) \<or>
          (e = UnicodeEncodeError \<and> history st \<noteq> [] \<and>
           event_exn (last (history st)) = None \<and>
           \<not> event_printable env (last (history st))) \<or>
          (e = UnicodeEncodeError \<and> lit ''--check'' \<notin> set argv \<and>
           length (history st) < length (target_notebooks env argv w) \<and>
           \<not> list_all (encodable env)
               (path_name (sorted_paths (py312 env) (target_notebooks env argv w) !
                  length (history st))) \<and>
           (\<forall>ev\<in>set (history st). event_ok env ev)))"
proof -
  let ?c = "lit ''--check'' \<in> set argv"
  let ?ts = "target_notebooks env argv w"
  let ?nbs = "sorted_paths (py312 env) ?ts"
  obtain x st' where loop:
    "process_notebooks env ?c ?nbs (initial_state ?c (length ?ts) w) = (x, st')"
    by (cases "process_notebooks env ?c ?nbs (initial_state ?c (length ?ts) w)")
  note m = main_loop[OF assms(1) loop]
  from process_notebooks_trace[OF loop] obtain evs out where evs:
    "history st' = evs"
    "stdout st' = header ?c (length ?ts) @ out"
    "all_passed st' = (\<forall>ev\<in>set evs. \<not> event_failed ev)"
    "map event_path evs = take (length evs) ?nbs"
    "\<forall>ev\<in>set evs. \<exists>w0. ev = step_event env ?c (event_path ev) w0"
    "evs \<noteq> [] \<longrightarrow> hd evs = step_event env ?c (hd ?nbs) w"
    "?c \<longrightarrow> world st' = w \<and> (\<forall>ev\<in>set evs. ev = step_event env ?c (event_path ev) w)"
    "\<forall>ev\<in>set (butlast evs). event_ok env ev"
    "prefix (concat (map (report env) (butlast evs))) out"
    "prefix out (concat (map (report env) evs))"
    "case x of
        None \<Rightarrow> length evs = length ?nbs \<and> (\<forall>ev\<in>set evs. event_ok env ev) \<and>
                out = concat (map (report env) evs)
      | Some e \<Rightarrow>
          (evs \<noteq> [] \<and> event_exn (last evs) = Some e) \<or>
          (e = UnicodeEncodeError \<and> evs \<noteq> [] \<and> event_exn (last evs) = None \<and>
           \<not> event_printable env (last evs)) \<or>
          (e = UnicodeEncodeError \<and> \<not> ?c \<and> length evs < length ?nbs \<and>
           \<not> list_all (encodable env) (path_name (?nbs ! length evs)) \<and>
           (\<forall>ev\<in>set evs. event_ok env ev) \<and> out = concat (map (report env) evs))"
    by (auto simp: initial_state_def)
  have mode: "\<forall>ev\<in>set evs. ev = step_event env True (event_path ev) w" if "?c"
    using evs(7) that by simp
  show ?thesis
  proof (cases x)
    case (Some e)
    with m assms(2) have r: "r = Inl e" and st: "st = st'" by simp_all
    have pre: "prefix out (concat (map (report env) evs) @ [newline])"
      using evs(10) by (metis prefix_order.order_trans prefixI)
    from Some evs(11) have last:
      "(evs \<noteq> [] \<and> event_exn (last evs) = Some e) \<or>
       (e = UnicodeEncodeError \<and> evs \<noteq> [] \<and> event_exn (last evs) = None \<and>
        \<not> event_printable env (last evs)) \<or>
       (e = UnicodeEncodeError \<and> \<not> ?c \<and> length evs < length ?ts \<and>
        \<not> list_all (encodable env) (path_name (?nbs ! length evs)) \<and>
        (\<forall>ev\<in>set evs. event_ok env ev))"
      by auto
    show ?thesis
      unfolding r st evs(1) sum.case
      using evs(2,3,4,5,6,8,9) pre last mode evs(7)
      by (intro exI[of _ out] conjI impI) blast+
  next
    case None
    with evs(11) have len: "length evs = length ?ts" and ok: "\<forall>ev\<in>set evs. event_ok env ev"
      and out: "out = concat (map (report env) evs)" by simp_all
    from len assms(1) have ne: "evs \<noteq> []" by auto
    show ?thesis
    proof (cases "all_passed st'")
      case False
      with None m assms(2) have r: "r = Inr 1"
        and st: "st = st'\<lparr>stdout := stdout st' @ summary False\<rparr>"
        by simp_all
      have h: "history st = evs" "world st = world st'" "all_passed st = all_passed st'"
        "stdout st = header ?c (length ?ts) @ out @ summary (1 = (0::int))"
        using evs(1,2) by (simp_all add: st)
      from False evs(3) have n: "(1::int) = (if \<forall>ev\<in>set evs. \<not> event_failed ev then 0 else 1)"
        by simp
      show ?thesis
        unfolding r h sum.case
        using evs(3,4,5,6,8,9) out len ok n mode evs(7)
        by (intro exI[of _ "out @ summary (1 = (0::int))"] conjI impI) (blast | simp)+
    next
      case True
      have passed: "event_passed (hd evs)" "event_printable env (hd evs)"
        using ne ok True evs(3) by (auto simp: event_passed_iff event_ok_def)
      then have "encodable env check_mark" by (rule passed_printable_check_mark)
      with True None m assms(2) have r: "r = Inr 0"
        and st: "st = st'\<lparr>stdout := stdout st' @ summary True\<rparr>"
        by simp_all
      have h: "history st = evs" "world st = world st'" "all_passed st = all_passed st'"
        "stdout st = header ?c (length ?ts) @ out @ summary (0 = (0::int))"
        using evs(1,2) by (simp_all add: st)
      from True evs(3) have n: "(0::int) = (if \<forall>ev\<in>set evs. \<not> event_failed ev then 0 else 1)"
        by simp
      show ?thesis
        unfolding r h sum.case
        using evs(3,4,5,6,8,9) out len ok n mode evs(7)
        by (intro exI[of _ "out @ summary (0 = (0::int))"] conjI impI) (blast | simp)+
    qed
  qed
qed


section \<open>Runs of \<open>main\<close>\<close>

lemma process_notebook_ok:
  assumes "event_ok env (step_event env c nb (world st))"
  shows "process_notebook env c nb st =
     (None, st\<lparr>world := step_world env c nb (world st),
               stdout := stdout st @ report env (step_event env c nb (world st)),
               all_passed := all_passed st \<and> \<not> event_failed (step_event env c nb (world st)),
               history := history st @ [step_event env c nb (world st)]\<rparr>)"
proof -
  let ?ev = "step_event env c nb (world st)"
  obtain x st' where run: "process_notebook env c nb st = (x, st')"
    by (cases "process_notebook env c nb st")
  have name: "c \<or> list_all (encodable env) (path_name nb)"
  proof (cases c)
    case False
    with assms have "list_all (encodable env)
        (report env (Ran nb (fst (run_notebook env nb (world st)))))"
      by (simp add: event_ok_def event_printable_def step_event_def)
    then show ?thesis unfolding report_Ran by simp
  qed simp
  with process_notebook_step[OF run] obtain part where part:
      "st' = st\<lparr>world := step_world env c nb (world st),
                stdout := stdout st @ part,
                all_passed := all_passed st \<and> \<not> event_failed ?ev,
                history := history st @ [?ev]\<rparr>"
      "case x of
          None \<Rightarrow> event_ok env ?ev \<and> part = report env ?ev
        | Some e \<Rightarrow> event_exn ?ev = Some e \<or>
            (event_exn ?ev = None \<and> e = UnicodeEncodeError \<and> \<not> event_printable env ?ev)"
    by blast
  from part(2) assms have "x = None" "part = report env ?ev"
    by (auto simp: event_ok_def split: option.splits)
  with run part(1) show ?thesis by simp
qed

lemma process_notebook_check_raise:
  assumes "check_saved_outputs env nb (world st) = Inl e"
  shows "process_notebook env True nb st =
     (Some e, st\<lparr>history := history st @ [Inspected nb (Inl e)]\<rparr>)"
  using assms by (simp add: process_notebook_def)

lemma process_notebook_exec_raise:
  assumes "run_notebook env nb (world st) = (Inl e, w')"
    and "list_all (encodable env) (path_name nb)"
  shows "process_notebook env False nb st =
     (Some e, st\<lparr>world := w',
                 stdout := stdout st @ lit ''  Running '' @ path_name nb @ lit ''... '',
                 history := history st @ [Ran nb (Inl e)]\<rparr>)"
proof -
  have pe: "py_print_end env (lit ''  Running '' @ path_name nb @ lit ''...'') (lit '' '') st =
      (None, st\<lparr>stdout := stdout st @ (lit ''  Running '' @ path_name nb @ lit ''...'') @
         lit '' ''\<rparr>)"
    unfolding py_print_end_space running_encodable using assms(2) by simp
  show ?thesis
    using assms(1) by (simp add: process_notebook_def pe and_then_def) (simp add: lit_def)
qed

lemma process_notebook_exec_unnamed:
  assumes "\<not> list_all (encodable env) (path_name nb)"
  shows "process_notebook env False nb st = (Some UnicodeEncodeError, st)"
proof -
  have "py_print_end env (lit ''  Running '' @ path_name nb @ lit ''...'') (lit '' '') st =
      (Some UnicodeEncodeError, st)"
    unfolding py_print_end_space running_encodable using assms by simp
  then show ?thesis by (simp add: process_notebook_def and_then_def)
qed

lemma process_notebook_exec_no_cross:
  assumes "run_notebook env nb (world st) = (Inr (False, error), w')"
    and "list_all (encodable env) (path_name nb)"
    and "\<not> encodable env cross_mark"
  shows "process_notebook env False nb st =
     (Some UnicodeEncodeError,
      st\<lparr>world := w',
         stdout := stdout st @ lit ''  Running '' @ path_name nb @ lit ''... '',
         all_passed := False,
         history := history st @ [Ran nb (Inr (False, error))]\<rparr>)"
proof -
  have pe: "py_print_end env (lit ''  Running '' @ path_name nb @ lit ''...'') (lit '' '') st =
      (None, st\<lparr>stdout := stdout st @ (lit ''  Running '' @ path_name nb @ lit ''...'') @
         lit '' ''\<rparr>)"
    unfolding py_print_end_space running_encodable using assms(2) by simp
  show ?thesis
    using assms(1,3)
    by (simp add: process_notebook_def pe and_then_def py_print_eq) (simp add: lit_def)
qed


lemma process_notebooks_Cons_ok:
  assumes "event_ok env (step_event env c nb (world st))"
  shows "process_notebooks env c (nb # rest) st =
     process_notebooks env c rest
       (st\<lparr>world := step_world env c nb (world st),
           stdout := stdout st @ report env (step_event env c nb (world st)),
           all_passed := all_passed st \<and> \<not> event_failed (step_event env c nb (world st)),
           history := history st @ [step_event env c nb (world st)]\<rparr>)"
  by (simp add: process_notebook_ok[OF assms] and_then_def)

lemma process_notebooks_Cons_raise:
  assumes "process_notebook env c nb st = (Some e, st')"
  shows "process_notebooks env c (nb # rest) st = (Some e, st')"
  using assms by (simp add: and_then_def)

lemma history_from_paths:
  assumes "\<forall>ev\<in>set evs. ev = f (event_path ev)"
  shows "evs = map f (map event_path evs)"
  using assms by (induction evs) auto

lemma run_notebook_FileNotFound:
  "subprocess_run env p w = (Inl FileNotFoundError, w') \<Longrightarrow>
   run_notebook env p w =
     (Inr (False, lit ''jupyter not found. Install with: pip install jupyter nbconvert''), w')"
  by (simp add: run_notebook_def)

lemma run_notebook_completed:
  "subprocess_run env p w = (Inr res, w') \<Longrightarrow>
   run_notebook env p w =
     (if returncode res \<noteq> 0 then Inr (False, error_message (stderr res)) else Inr (True, []), w')"
  by (simp add: run_notebook_def)

lemma run_notebook_raises:
  "subprocess_run env p w = (Inl e, w') \<Longrightarrow> e \<noteq> FileNotFoundError \<Longrightarrow>
   run_notebook env p w = (Inl e, w')"
  by (simp add: run_notebook_def)

lemma target_notebooks_args:
  "filter (\<lambda>a. \<not> prefix (lit ''--'') a) (tl argv) \<noteq> [] \<Longrightarrow>
   target_notebooks env argv w = map Path (filter (\<lambda>a. \<not> prefix (lit ''--'') a) (tl argv))"
  by (simp add: target_notebooks_def)

lemma str_nat_digit: "n < 10 \<Longrightarrow> str_nat n = [48 + n]"
  by (simp add: str_nat.simps)

lemma targets_b_a:
  "target_notebooks env [lit ''check_notebooks.py'', lit ''b.ipynb'', lit ''a.ipynb''] w =
     [Path (lit ''b.ipynb''), Path (lit ''a.ipynb'')]"
  by (simp add: target_notebooks_def lit_def)

lemma targets_check_b_a:
  "target_notebooks env
     [lit ''check_notebooks.py'', lit ''--check'', lit ''b.ipynb'', lit ''a.ipynb''] w =
     [Path (lit ''b.ipynb''), Path (lit ''a.ipynb'')]"
  by (simp add: target_notebooks_def lit_def)


lemma targets_check_d_a:
  "target_notebooks env
     [lit ''check_notebooks.py'', lit ''--check'', lit ''d.ipynb'', lit ''a.ipynb''] w =
     [Path (lit ''d.ipynb''), Path (lit ''a.ipynb'')]"
  by (simp add: target_notebooks_def lit_def)

lemma targets_flags:
  "target_notebooks env
     [lit ''check_notebooks.py'', lit ''--verbose'', lit ''b.ipynb'', lit ''--check'',
      lit ''a.ipynb''] w =
     [Path (lit ''b.ipynb''), Path (lit ''a.ipynb'')]"
  by (simp add: target_notebooks_def lit_def)

lemma targets_nb_old_nb:
  "target_notebooks env
     [lit ''check_notebooks.py'', lit ''nb-old/x.ipynb'', lit ''nb/x.ipynb''] w =
     [Path (lit ''nb-old/x.ipynb''), Path (lit ''nb/x.ipynb'')]"
  by (simp add: target_notebooks_def lit_def)

lemma no_check_b_a:
  "lit ''--check'' \<notin> set [lit ''check_notebooks.py'', lit ''b.ipynb'', lit ''a.ipynb'']"
  by (simp add: lit_def)

lemma Path_d: "Path (lit ''d.ipynb'') = \<lparr>path_root = [], path_tail = [lit ''d.ipynb'']\<rparr>"
  by (simp add: Path_def splitroot_def lit_def)

lemma Path_nb_x:
  "Path (lit ''nb/x.ipynb'') = \<lparr>path_root = [], path_tail = [lit ''nb'', lit ''x.ipynb'']\<rparr>"
  by (simp add: Path_def splitroot_def lit_def)

lemma Path_nb_old_x:
  "Path (lit ''nb-old/x.ipynb'') = \<lparr>path_root = [], path_tail = [lit ''nb-old'', lit ''x.ipynb'']\<rparr>"
  by (simp add: Path_def splitroot_def lit_def)

lemma Path_abs_a:
  "Path (lit ''/abs/a.ipynb'') = \<lparr>path_root = lit ''/'', path_tail = [lit ''abs'', lit ''a.ipynb'']\<rparr>"
  by (simp add: Path_def splitroot_def lit_def)

lemma Path_up_b:
  "Path (lit ''../b.ipynb'') = \<lparr>path_root = [], path_tail = [lit ''..'', lit ''b.ipynb'']\<rparr>"
  by (simp add: Path_def splitroot_def lit_def)

lemma sorted_b_a:
  "sorted_paths v [Path (lit ''b.ipynb''), Path (lit ''a.ipynb'')] =
     [Path (lit ''a.ipynb''), Path (lit ''b.ipynb'')]"
  unfolding Path_a Path_b
  by (simp add: sorted_paths_def compare_key_def parts_normcase_def cparts_def path_str_def
      lit_def)

lemma sorted_d_a:
  "sorted_paths v [Path (lit ''d.ipynb''), Path (lit ''a.ipynb'')] =
     [Path (lit ''a.ipynb''), Path (lit ''d.ipynb'')]"
  unfolding Path_a Path_d
  by (simp add: sorted_paths_def compare_key_def parts_normcase_def cparts_def path_str_def
      lit_def)

lemma sorted_nb_old_nb:
  "sorted_paths v [Path (lit ''nb-old/x.ipynb''), Path (lit ''nb/x.ipynb'')] =
     [Path (lit ''nb/x.ipynb''), Path (lit ''nb-old/x.ipynb'')]"
  unfolding Path_nb_x Path_nb_old_x
  by (simp add: sorted_paths_def compare_key_def parts_normcase_def cparts_def path_str_def
      lit_def)

lemma sorted_abs_up_new:
  "sorted_paths True [Path (lit ''../b.ipynb''), Path (lit ''/abs/a.ipynb'')] =
     [Path (lit ''/abs/a.ipynb''), Path (lit ''../b.ipynb'')]"
  unfolding Path_abs_a Path_up_b
  by (simp add: sorted_paths_def compare_key_def parts_normcase_def path_str_def lit_def)

lemma sorted_abs_up_old:
  "sorted_paths False [Path (lit ''/abs/a.ipynb''), Path (lit ''../b.ipynb'')] =
     [Path (lit ''../b.ipynb''), Path (lit ''/abs/a.ipynb'')]"
  unfolding Path_abs_a Path_up_b
  by (simp add: sorted_paths_def compare_key_def cparts_def lit_def)

lemma name_a: "path_name (Path (lit ''a.ipynb'')) = lit ''a.ipynb''"
  unfolding Path_a by (simp add: path_name_def)


lemma name_d: "path_name (Path (lit ''d.ipynb'')) = lit ''d.ipynb''"
  unfolding Path_d by (simp add: path_name_def)

lemma lit_ascii_a: "list_all (encodable env) (lit ''a.ipynb'')"
  by (simp add: lit_def encodable_def)

lemma lit_ascii_b: "list_all (encodable env) (lit ''b.ipynb'')"
  by (simp add: lit_def encodable_def)

lemma demo_encodable [simp]: "encodable demo_env c"
  by (simp add: encodable_def demo_env_def)

lemma demo_all_encodable [simp]: "list_all (encodable demo_env) s"
  by (simp add: list_all_iff)

lemma demo_printable [simp]: "event_printable demo_env ev"
  by (simp add: event_printable_def)

lemma legacy_encodable [simp]: "encodable legacy_env c"
  by (simp add: encodable_def legacy_env_def demo_env_def)

lemma legacy_all_encodable [simp]: "list_all (encodable legacy_env) s"
  by (simp add: list_all_iff)

lemma legacy_printable [simp]: "event_printable legacy_env ev"
  by (simp add: event_printable_def)

lemma ascii_encodable_iff [simp]: "encodable ascii_env c \<longleftrightarrow> c < 128"
  by (simp add: encodable_def ascii_env_def)


lemma ascii_no_cross_mark: "\<not> encodable ascii_env cross_mark"
  by (simp add: cross_mark_def)





lemma demo_load_b: "json_load demo_env (Path (lit ''b.ipynb'')) w = Inr scenario_notebook"
  unfolding Path_b by (simp add: demo_env_def path_name_def lit_def)

lemma demo_load_d: "json_load demo_env (Path (lit ''d.ipynb'')) w = Inl JSONDecodeError"
  unfolding Path_d by (simp add: demo_env_def path_name_def lit_def)

lemma wf_clean: "wf_notebook clean_notebook"
  by (simp add: wf_notebook_def wf_cell_def wf_output_def clean_notebook_def is_dict_def
      is_str_def field_or_def is_code_cell_def is_error_output_def lit_def)



lemma demo_check_b:
  "check_saved_outputs demo_env (Path (lit ''b.ipynb'')) w =
     Inr [\<lparr>cell = 1, ename = JStr (lit ''ValueError''), evalue = JStr (lit ''bad input'')\<rparr>]"
  by (simp add: check_saved_outputs_def demo_load_b inspect_scenario)

lemma demo_check_d:
  "check_saved_outputs demo_env (Path (lit ''d.ipynb'')) w = Inl JSONDecodeError"
  by (simp add: check_saved_outputs_def demo_load_d)

lemma demo_launches:
  "\<forall>q w0 x. fst (subprocess_run demo_env q w0) = Inl x \<longrightarrow> x = FileNotFoundError"
  by (simp add: demo_env_def)



lemma no_tool_encodable [simp]: "encodable no_tool_env c"
  by (simp add: encodable_def no_tool_env_def demo_env_def)

lemma no_tool_all_encodable [simp]: "list_all (encodable no_tool_env) s"
  by (simp add: list_all_iff)

lemma ascii_no_tool_encodable_iff [simp]: "encodable ascii_no_tool_env c \<longleftrightarrow> c < 128"
  by (simp add: encodable_def ascii_no_tool_env_def)

lemma ascii_no_tool_no_cross_mark: "\<not> encodable ascii_no_tool_env cross_mark"
  by (simp add: cross_mark_def)

lemma missing_report_printable:
  assumes "encodable env cross_mark" "list_all (encodable env) (path_name p)"
  shows "event_printable env
     (Ran p (Inr (False, lit ''jupyter not found. Install with: pip install jupyter nbconvert'')))"
  using assms by (simp add: event_printable_def lit_def encodable_def newline_def)

lemma ascii_no_tool_run:
  "main ascii_no_tool_env [lit ''check_notebooks.py'', lit ''b.ipynb'', lit ''a.ipynb''] 0 =
     (Inl UnicodeEncodeError,
      \<lparr>world = 0, stdout = lit ''Running 2 notebook(s)...\<newline>\<newline>  Running a.ipynb... '',
       all_passed = False,
       history = [Ran (Path (lit ''a.ipynb''))
         (Inr (False, lit ''jupyter not found. Install with: pip install jupyter nbconvert''))]\<rparr>)"
proof -
  let ?argv = "[lit ''check_notebooks.py'', lit ''b.ipynb'', lit ''a.ipynb'']"
  let ?msg = "lit ''jupyter not found. Install with: pip install jupyter nbconvert''"
  have ne: "target_notebooks ascii_no_tool_env ?argv 0 \<noteq> []" by (simp add: targets_b_a)
  have run: "run_notebook ascii_no_tool_env (Path (lit ''a.ipynb'')) w = (Inr (False, ?msg), w)"
    for w
    by (rule run_notebook_FileNotFound) (simp add: ascii_no_tool_env_def no_tool_env_def)
  have name: "list_all (encodable ascii_no_tool_env) (path_name (Path (lit ''a.ipynb'')))"
    unfolding name_a by (simp add: lit_def)
  have first: "process_notebooks ascii_no_tool_env False
      [Path (lit ''a.ipynb''), Path (lit ''b.ipynb'')] (initial_state False (Suc (Suc 0)) 0) =
      (Some UnicodeEncodeError,
       \<lparr>world = 0, stdout = header False (Suc (Suc 0)) @ lit ''  Running a.ipynb... '',
        all_passed = False, history = [Ran (Path (lit ''a.ipynb'')) (Inr (False, ?msg))]\<rparr>)"
    apply (rule process_notebooks_Cons_raise)
    apply (simp add: process_notebook_exec_no_cross[OF run name ascii_no_tool_no_cross_mark]
          initial_state_def name_a)
    apply (simp add: lit_def)
    done
  have loop: "process_notebooks ascii_no_tool_env (lit ''--check'' \<in> set ?argv)
      (sorted_paths (py312 ascii_no_tool_env) (target_notebooks ascii_no_tool_env ?argv 0))
      (initial_state (lit ''--check'' \<in> set ?argv)
         (length (target_notebooks ascii_no_tool_env ?argv 0)) 0) =
      (Some UnicodeEncodeError,
       \<lparr>world = 0, stdout = header False (Suc (Suc 0)) @ lit ''  Running a.ipynb... '',
        all_passed = False, history = [Ran (Path (lit ''a.ipynb'')) (Inr (False, ?msg))]\<rparr>)"
    unfolding targets_b_a sorted_b_a
    by (simp only: no_check_b_a list.size) (simp add: first del: process_notebooks.simps)
  have hd: "header False (Suc (Suc 0)) @ lit ''  Running a.ipynb... '' =
      lit ''Running 2 notebook(s)...\<newline>\<newline>  Running a.ipynb... ''"
    by (simp add: header_def str_nat_digit) (simp add: lit_def newline_def)
  from main_loop[OF ne loop] show ?thesis by (simp add: hd)
qed


section \<open>The diagnostic of a failed execution\<close>

text \<open>
  C10: when the captured error stream contains \<open>CellExecutionError\<close>, the line that
  holds this substring contains \<open>Error\<close>, so the scan over the lines always stops at
  a line (it never runs to its end and the trimmed stream is never the fallback), and
  the message returned for a nonzero exit status is the first line that mentions
  \<open>Error\<close> or \<open>Exception\<close> with the lines after it, three lines at most, joined by
  newlines and cut to 200 characters.
\<close>

theorem cell_execution_error_always_extracted:
  assumes "subprocess_run env p w = (Inr result, w')"
    and "returncode result \<noteq> 0"
    and "sublist (lit ''CellExecutionError'') (stderr result)"
  shows "let lines = str_split newline (strip (stderr result)) in
           (\<exists>l\<in>set lines. sublist (lit ''CellExecutionError'') l \<and> sublist (lit ''Error'') l) \<and>
           scan_lines lines 0 lines \<noteq> None \<and>
           run_notebook env p w =
             (Inr (False, take 200 (str_join [newline]
                (take 3 (dropWhile (\<lambda>l. \<not> mentions_error l) lines)))), w')"
proof -
  let ?err = "stderr result"
  let ?lines = "str_split newline (strip ?err)"
  have line: "\<exists>l\<in>set ?lines. sublist (lit ''CellExecutionError'') l \<and> sublist (lit ''Error'') l"
    using assms(3) by (rule CellExecutionError_line)
  then have "\<exists>l\<in>set ?lines. mentions_error l"
    by (auto simp: mentions_error_def)
  then have ne: "dropWhile (\<lambda>l. \<not> mentions_error l) ?lines \<noteq> []"
    by (simp add: dropWhile_eq_Nil_conv)
  then obtain l ls where dw: "dropWhile (\<lambda>l. \<not> mentions_error l) ?lines = l # ls"
    by (cases "dropWhile (\<lambda>l. \<not> mentions_error l) ?lines") auto
  have scan: "scan_lines ?lines 0 ?lines = Some (str_join [newline] (take 3 (l # ls)))"
    by (simp add: scan_lines_all dw)
  have cee: "sublist (lit ''CellExecutionError'') (strip ?err)"
    using assms(3) by (simp add: sublist_strip lit_CellExecutionError_facts)
  have "error_message ?err = take 200 (str_join [newline] (take 3 (l # ls)))"
    by (simp only: error_message_take cee scan if_True option.case)
  then have "run_notebook env p w =
      (Inr (False, take 200 (str_join [newline]
         (take 3 (dropWhile (\<lambda>l. \<not> mentions_error l) ?lines)))), w')"
    using assms(1,2) by (simp add: run_notebook_def dw)
  with line scan show ?thesis by (simp add: Let_def)
qed


theorem cell_execution_error_always_extracted_witness:
  "subprocess_run demo_env (Path (lit ''b.ipynb'')) 0 =
     (Inr \<lparr>returncode = 1, stderr = failing_stderr\<rparr>, 1) \<and>
   sublist (lit ''CellExecutionError'') failing_stderr \<and>
   run_notebook demo_env (Path (lit ''b.ipynb'')) 0 =
     (Inr (False, lit ''nbclient.CellExecutionError: An error\<newline>ValueError: bad\<newline>more''), 1)"
proof -
  have h1: "subprocess_run demo_env (Path (lit ''b.ipynb'')) 0 =
     (Inr \<lparr>returncode = 1, stderr = failing_stderr\<rparr>, 1)"
    unfolding Path_b by (simp add: demo_env_def path_name_def lit_def)
  have h2: "returncode \<lparr>returncode = 1, stderr = failing_stderr\<rparr> \<noteq> 0" by simp
  have h3: "sublist (lit ''CellExecutionError'') (stderr \<lparr>returncode = 1, stderr = failing_stderr\<rparr>)"
    by (simp add: failing_stderr_def lit_def sublist_code)
  have lines: "str_split newline (strip failing_stderr) =
      [lit ''Traceback'', lit ''nbclient.CellExecutionError: An error'', lit ''ValueError: bad'',
       lit ''more'', lit ''rest'']"
    by (simp add: failing_stderr_def lit_def strip_def isspace_def newline_def)
  have m: "\<not> mentions_error (lit ''Traceback'')"
      "mentions_error (lit ''nbclient.CellExecutionError: An error'')"
    by (simp_all add: mentions_error_def lit_def sublist_code)
  show ?thesis
    using cell_execution_error_always_extracted[OF h1 h2 h3] h1 h3
    by (simp add: lines m) (simp add: lit_def newline_def)
qed



section \<open>Saved outputs\<close>

text \<open>
  C2: whenever \<open>check_saved_outputs\<close> returns descriptors for a notebook, the cell index
  of each is the 1-based position, in the full cell list (code cells and others alike),
  of a code cell that holds the error output the descriptor describes; every error
  output of a code cell at position \<open>k + 1\<close> is reported with index \<open>k + 1\<close>; and the
  indices come in document order.  The notebook with the cells markdown, code with an
  error output, clean code yields one descriptor, with cell index 2.
\<close>

theorem cell_indices_are_positions:
  assumes "json_load env p w = Inr nb"
    and "check_saved_outputs env p w = Inr ds"
  shows "(\<forall>d\<in>set ds. \<exists>k<length (cells_of nb).
            cell d = Suc k \<and> is_code_cell (cells_of nb ! k) \<and>
            (\<exists>outp\<in>set (outputs_of (cells_of nb ! k)).
               is_error_output outp \<and> d = spec_descriptor (Suc k) outp)) \<and>
         (\<forall>k<length (cells_of nb). is_code_cell (cells_of nb ! k) \<longrightarrow>
            (\<forall>outp\<in>set (outputs_of (cells_of nb ! k)).
               is_error_output outp \<longrightarrow> spec_descriptor (Suc k) outp \<in> set ds)) \<and>
         sorted (map cell ds) \<and>
         inspect_notebook example_notebook =
           Inr [\<lparr>cell = 2, ename = JStr (lit ''ZeroDivisionError''),
                 evalue = JStr (lit ''division by zero'')\<rparr>]"
proof -
  from assms have insp: "inspect_notebook nb = Inr ds"
    by (simp add: check_saved_outputs_def)
  then have ds: "ds = spec_descriptors 1 (cells_of nb)"
    by (rule inspect_notebook_Inr)
  have set_ds: "set ds = (\<Union>k<length (cells_of nb). set (spec_cell_descriptors (Suc k) (cells_of nb ! k)))"
    unfolding ds set_descriptors_from by simp
  have a: "\<forall>d\<in>set ds. \<exists>k<length (cells_of nb).
            cell d = Suc k \<and> is_code_cell (cells_of nb ! k) \<and>
            (\<exists>outp\<in>set (outputs_of (cells_of nb ! k)).
               is_error_output outp \<and> d = spec_descriptor (Suc k) outp)"
    unfolding set_ds by (fastforce simp: spec_cell_descriptors_def spec_descriptor_def split: if_splits)
  have b: "\<forall>k<length (cells_of nb). is_code_cell (cells_of nb ! k) \<longrightarrow>
            (\<forall>outp\<in>set (outputs_of (cells_of nb ! k)).
               is_error_output outp \<longrightarrow> spec_descriptor (Suc k) outp \<in> set ds)"
    unfolding set_ds by (fastforce simp: spec_cell_descriptors_def)
  have c: "sorted (map cell ds)" unfolding ds by (rule sorted_cells)
  from a b c inspect_example show ?thesis by blast
qed

theorem cell_indices_are_positions_witness:
  "json_load demo_env (Path (lit ''c.ipynb'')) 0 = Inr example_notebook \<and>
   check_saved_outputs demo_env (Path (lit ''c.ipynb'')) 0 =
     Inr [\<lparr>cell = 2, ename = JStr (lit ''ZeroDivisionError''),
           evalue = JStr (lit ''division by zero'')\<rparr>] \<and>
   (\<exists>k<length (cells_of example_notebook). 2 = Suc k \<and> is_code_cell (cells_of example_notebook ! k))"
proof -
  have h1: "json_load demo_env (Path (lit ''c.ipynb'')) 0 = Inr example_notebook"
    unfolding Path_c by (simp add: demo_env_def path_name_def lit_def)
  have h2: "check_saved_outputs demo_env (Path (lit ''c.ipynb'')) 0 =
     Inr [\<lparr>cell = 2, ename = JStr (lit ''ZeroDivisionError''),
           evalue = JStr (lit ''division by zero'')\<rparr>]"
    by (simp add: check_saved_outputs_def h1 inspect_example)
  from cell_indices_are_positions[OF h1 h2] h1 h2 show ?thesis by fastforce
qed

text \<open>
  C4: whenever \<open>check_saved_outputs\<close> returns, it returns, in document order, one
  descriptor for every output tagged \<open>error\<close> of every code cell: the 1-based index of
  the cell, the error name (\<open>Unknown\<close> when the output has no \<open>ename\<close>), and the error
  value cut to its first 100 characters (\<open>spec_descriptor\<close>).  For a well-formed notebook
  it does return, and every reported value is a string of at most 100 characters.  The
  notebook of the scenario yields exactly one descriptor: cell 1, \<open>ValueError\<close>,
  \<open>bad input\<close>.
\<close>

theorem error_outputs_reported:
  assumes "json_load env p w = Inr nb"
  shows "(\<forall>ds. check_saved_outputs env p w = Inr ds \<longrightarrow>
            ds = spec_descriptors 1 (cells_of nb)) \<and>
         (wf_notebook nb \<longrightarrow>
            check_saved_outputs env p w = Inr (spec_descriptors 1 (cells_of nb)) \<and>
            (\<forall>d\<in>set (spec_descriptors 1 (cells_of nb)).
               \<exists>s. evalue d = JStr s \<and> length s \<le> 100)) \<and>
         inspect_notebook scenario_notebook =
           Inr [\<lparr>cell = 1, ename = JStr (lit ''ValueError''),
                 evalue = JStr (lit ''bad input'')\<rparr>]"
proof -
  let ?ds = "spec_descriptors 1 (cells_of nb)"
  have chk: "check_saved_outputs env p w = inspect_notebook nb"
    using assms by (simp add: check_saved_outputs_def)
  have ret: "\<forall>ds. check_saved_outputs env p w = Inr ds \<longrightarrow> ds = ?ds"
    unfolding chk by (auto dest: inspect_notebook_Inr)
  have len: "\<exists>s. evalue d = JStr s \<and> length s \<le> 100"
    if wf: "wf_notebook nb" and d: "d \<in> set ?ds" for d
  proof -
    from d obtain k where k: "k < length (cells_of nb)"
        "d \<in> set (spec_cell_descriptors (Suc k) (cells_of nb ! k))"
      unfolding set_descriptors_from by auto
    let ?c = "cells_of nb ! k"
    from k have code: "is_code_cell ?c"
      by (auto simp: spec_cell_descriptors_def split: if_splits)
    from k code obtain outp where o: "outp \<in> set (outputs_of ?c)" "is_error_output outp"
        "d = spec_descriptor (Suc k) outp"
      by (auto simp: spec_cell_descriptors_def)
    have "wf_cell ?c" using wf k(1) by (auto intro: wf_cells_of)
    then have "wf_output outp" using code o(1) by (rule wf_outputs_of)
    with o(2) obtain s where "field_or (JStr []) (lit ''evalue'') outp = JStr s"
      by (auto simp: wf_output_def is_str_def split: json.splits)
    with o(3) show ?thesis by (simp add: spec_descriptor_def truncated_def)
  qed
  have wf: "wf_notebook nb \<longrightarrow>
      check_saved_outputs env p w = Inr ?ds \<and>
      (\<forall>d\<in>set ?ds. \<exists>s. evalue d = JStr s \<and> length s \<le> 100)"
    unfolding chk using inspect_notebook_wf len by blast
  from ret wf inspect_scenario show ?thesis by blast
qed

theorem error_outputs_reported_witness:
  "json_load demo_env (Path (lit ''b.ipynb'')) 0 = Inr scenario_notebook \<and>
   wf_notebook scenario_notebook \<and>
   check_saved_outputs demo_env (Path (lit ''b.ipynb'')) 0 =
     Inr [\<lparr>cell = 1, ename = JStr (lit ''ValueError''), evalue = JStr (lit ''bad input'')\<rparr>]"
proof -
  have h1: "json_load demo_env (Path (lit ''b.ipynb'')) 0 = Inr scenario_notebook"
    unfolding Path_b by (simp add: demo_env_def path_name_def lit_def)
  have ds: "spec_descriptors 1 (cells_of scenario_notebook) =
      [\<lparr>cell = 1, ename = JStr (lit ''ValueError''), evalue = JStr (lit ''bad input'')\<rparr>]"
    by (simp add: cells_of_def scenario_notebook_def field_or_def items_def
        spec_cell_descriptors_def is_code_cell_def outputs_of_def is_error_output_def
        spec_descriptor_def truncated_def lit_def)
  from error_outputs_reported[OF h1] wf_scenario
  have "check_saved_outputs demo_env (Path (lit ''b.ipynb'')) 0 =
      Inr (spec_descriptors 1 (cells_of scenario_notebook))"
    by blast
  with ds h1 wf_scenario show ?thesis by simp
qed

section \<open>The exit status\<close>




text \<open>
  C5: when target resolution yields no notebook, in execution mode as in inspection
  mode, \<open>main\<close> prints exactly \<open>No notebooks found.\<close> and a newline, processes nothing,
  and the process exits with status 0.
\<close>

theorem no_notebooks_found:
  assumes "target_notebooks env argv w = []"
  shows "main env argv w =
           (Inr 0, \<lparr>world = w, stdout = lit ''No notebooks found.\<newline>'', all_passed = True,
                     history = []\<rparr>) \<and>
         exit_status (fst (main env argv w)) = 0"
  using main_empty[OF assms] by (simp add: exit_status_def)

theorem no_notebooks_found_witness:
  "target_notebooks demo_env [lit ''check_notebooks.py''] 0 = [] \<and>
   main demo_env [lit ''check_notebooks.py''] 0 =
     (Inr 0, \<lparr>world = 0, stdout = lit ''No notebooks found.\<newline>'', all_passed = True,
               history = []\<rparr>) \<and>
   target_notebooks demo_env [lit ''check_notebooks.py'', lit ''--check''] 0 = [] \<and>
   main demo_env [lit ''check_notebooks.py'', lit ''--check''] 0 =
     (Inr 0, \<lparr>world = 0, stdout = lit ''No notebooks found.\<newline>'', all_passed = True,
               history = []\<rparr>)"
proof -
  have h1: "target_notebooks demo_env [lit ''check_notebooks.py''] 0 = []"
    by (simp add: target_notebooks_def demo_env_def)
  have h2: "target_notebooks demo_env [lit ''check_notebooks.py'', lit ''--check''] 0 = []"
    by (simp add: target_notebooks_def demo_env_def lit_def)
  from no_notebooks_found[OF h1] no_notebooks_found[OF h2] h1 h2 show ?thesis by simp
qed

section \<open>Errors: the missing tool and the unreadable notebook\<close>

text \<open>
  C7, as amended: when the launch of the external tool raises \<open>FileNotFoundError\<close> for
  a notebook, \<open>run_notebook\<close> returns failure with the fixed message
  \<open>jupyter not found. Install with: pip install jupyter nbconvert\<close>.  When the standard
  output can encode the cross mark and the name of the notebook, the loop prints the
  failure, clears \<open>all_passed\<close> and goes on with the remaining notebooks; and when the
  tool is missing for every notebook of a run in execution mode and the standard output
  can encode the cross mark and every name, every notebook is still attempted, in
  sorted order, each with that message, and \<open>main\<close> returns 1.
\<close>

theorem missing_tool_is_reported_and_run_continues:
  fixes msg :: ustring
  defines "msg \<equiv> lit ''jupyter not found. Install with: pip install jupyter nbconvert''"
  assumes "subprocess_run env p (world st) = (Inl FileNotFoundError, w')"
  shows "run_notebook env p (world st) = (Inr (False, msg), w') \<and>
         (encodable env cross_mark \<and> list_all (encodable env) (path_name p) \<longrightarrow>
            process_notebooks env False (p # rest) st =
              process_notebooks env False rest
                (st\<lparr>world := w',
                    stdout := stdout st @ lit ''  Running '' @ path_name p @ lit ''... '' @
                                [cross_mark, newline] @ lit ''    Error: '' @ msg @ [newline],
                    all_passed := False,
                    history := history st @ [Ran p (Inr (False, msg))]\<rparr>)) \<and>
         ((\<forall>q w0. fst (subprocess_run env q w0) = Inl FileNotFoundError) \<and>
          lit ''--check'' \<notin> set argv \<and> target_notebooks env argv w \<noteq> [] \<and>
          encodable env cross_mark \<and>
          (\<forall>q\<in>set (target_notebooks env argv w). list_all (encodable env) (path_name q)) \<longrightarrow>
            fst (main env argv w) = Inr 1 \<and>
            history (snd (main env argv w)) =
              map (\<lambda>q. Ran q (Inr (False, msg)))
                (sorted_paths (py312 env) (target_notebooks env argv w)))"
proof -
  have run: "run_notebook env p (world st) = (Inr (False, msg), w')"
    using assms(2) unfolding msg_def by (rule run_notebook_FileNotFound)
  have loop: "process_notebooks env False (p # rest) st =
           process_notebooks env False rest
             (st\<lparr>world := w',
                 stdout := stdout st @ lit ''  Running '' @ path_name p @ lit ''... '' @
                             [cross_mark, newline] @ lit ''    Error: '' @ msg @ [newline],
                 all_passed := False,
                 history := history st @ [Ran p (Inr (False, msg))]\<rparr>)"
    if enc: "encodable env cross_mark" "list_all (encodable env) (path_name p)"
  proof -
    have ev: "step_event env False p (world st) = Ran p (Inr (False, msg))"
      by (simp add: step_event_def run)
    have ok: "event_ok env (step_event env False p (world st))"
      unfolding ev event_ok_def msg_def using missing_report_printable[OF enc] by simp
    show ?thesis
      unfolding process_notebooks_Cons_ok[OF ok] ev
      by (simp add: step_world_def run)
  qed
  have all: "fst (main env argv w) = Inr 1 \<and>
            history (snd (main env argv w)) =
              map (\<lambda>q. Ran q (Inr (False, msg)))
                (sorted_paths (py312 env) (target_notebooks env argv w))"
    if missing: "\<forall>q w0. fst (subprocess_run env q w0) = Inl FileNotFoundError"
      and exec: "lit ''--check'' \<notin> set argv"
      and ne: "target_notebooks env argv w \<noteq> []"
      and mark: "encodable env cross_mark"
      and names: "\<forall>q\<in>set (target_notebooks env argv w). list_all (encodable env) (path_name q)"
  proof -
    let ?ts = "target_notebooks env argv w"
    let ?nbs = "sorted_paths (py312 env) ?ts"
    obtain r st1 where m: "main env argv w = (r, st1)" by (cases "main env argv w")
    from main_trace[OF ne m] have
      paths: "map event_path (history st1) = take (length (history st1)) ?nbs" and
      evs: "\<forall>ev\<in>set (history st1).
          \<exists>w0. ev = step_event env (lit ''--check'' \<in> set argv) (event_path ev) w0" and
      res: "case r of
        Inr n \<Rightarrow>
          length (history st1) = length ?ts \<and>
          (\<forall>ev\<in>set (history st1). event_ok env ev) \<and>
          n = (if \<forall>ev\<in>set (history st1). \<not> event_failed ev then 0 else 1)
      | Inl e \<Rightarrow>
          (history st1 \<noteq> [] \<and> event_exn (last (history st1)) = Some e) \<or>
          (e = UnicodeEncodeError \<and> history st1 \<noteq> [] \<and>
           event_exn (last (history st1)) = None \<and>
           \<not> event_printable env (last (history st1))) \<or>
          (e = UnicodeEncodeError \<and> lit ''--check'' \<notin> set argv \<and>
           length (history st1) < length ?ts \<and>
           \<not> list_all (encodable env) (path_name (?nbs ! length (history st1))) \<and>
           (\<forall>ev\<in>set (history st1). event_ok env ev))"
      by blast+
    have rn: "fst (run_notebook env q w0) = Inr (False, msg)" for q w0
    proof -
      obtain w1 where "subprocess_run env q w0 = (Inl FileNotFoundError, w1)"
        using missing by (metis fst_conv surj_pair)
      then show ?thesis unfolding msg_def by (simp add: run_notebook_FileNotFound)
    qed
    have ev: "\<forall>ev\<in>set (history st1). ev = Ran (event_path ev) (Inr (False, msg))"
    proof
      fix ev assume "ev \<in> set (history st1)"
      with evs exec obtain w0 where "ev = step_event env False (event_path ev) w0" by auto
      then show "ev = Ran (event_path ev) (Inr (False, msg))"
        by (simp add: step_event_def rn)
    qed
    have in_targets: "event_path ev \<in> set ?ts" if "ev \<in> set (history st1)" for ev
    proof -
      from that have "event_path ev \<in> set (map event_path (history st1))" by simp
      with paths have "event_path ev \<in> set (take (length (history st1)) ?nbs)" by simp
      then show ?thesis by (metis in_set_takeD set_sorted_paths)
    qed
    have props: "event_exn ev = None \<and> event_failed ev \<and> event_printable env ev"
      if "ev \<in> set (history st1)" for ev
    proof -
      from ev that have e: "ev = Ran (event_path ev) (Inr (False, msg))" by blast
      from in_targets[OF that] names
      have "list_all (encodable env) (path_name (event_path ev))" by blast
      from missing_report_printable[OF mark this]
      have "event_printable env (Ran (event_path ev) (Inr (False, msg)))"
        unfolding msg_def .
      with e have p: "event_printable env ev" by simp
      have "event_exn (Ran (event_path ev) (Inr (False, msg))) = None"
        "event_failed (Ran (event_path ev) (Inr (False, msg)))" by simp_all
      with e p show ?thesis by metis
    qed
    have "\<exists>n. r = Inr n"
    proof (cases r)
      case (Inl e)
      with res consider
        (raised) "history st1 \<noteq> []" "event_exn (last (history st1)) = Some e"
      | (unprinted) "history st1 \<noteq> []" "\<not> event_printable env (last (history st1))"
      | (unnamed) "length (history st1) < length ?ts"
          "\<not> list_all (encodable env) (path_name (?nbs ! length (history st1)))"
        by auto
      then show ?thesis
      proof cases
        case raised
        then have "last (history st1) \<in> set (history st1)" by simp
        from props[OF this] raised(2) show ?thesis by simp
      next
        case unprinted
        then have "last (history st1) \<in> set (history st1)" by simp
        from props[OF this] unprinted(2) show ?thesis by simp
      next
        case unnamed
        then have "length (history st1) < length ?nbs" by simp
        then have "?nbs ! length (history st1) \<in> set ?nbs" by (rule nth_mem)
        then have "?nbs ! length (history st1) \<in> set ?ts" by simp
        with names unnamed(2) show ?thesis by blast
      qed
    next
      case (Inr n)
      then show ?thesis by simp
    qed
    then obtain n where r: "r = Inr n" by blast
    with res have len: "length (history st1) = length ?ts"
      and n: "n = (if \<forall>ev\<in>set (history st1). \<not> event_failed ev then 0 else 1)"
      by simp_all
    from len ne have "history st1 \<noteq> []" by auto
    then have l: "last (history st1) \<in> set (history st1)" by simp
    from props[OF l] l n have "n = 1" by auto
    moreover from paths len have "map event_path (history st1) = ?nbs" by simp
    with history_from_paths[OF ev]
    have "history st1 = map (\<lambda>q. Ran q (Inr (False, msg))) ?nbs" by simp
    ultimately show ?thesis using m r by simp
  qed
  from run loop all show ?thesis by blast
qed

theorem missing_tool_is_reported_and_run_continues_witness:
  "subprocess_run no_tool_env (Path (lit ''a.ipynb'')) 0 = (Inl FileNotFoundError, 0) \<and>
   encodable no_tool_env cross_mark \<and>
   run_notebook no_tool_env (Path (lit ''a.ipynb'')) 0 =
     (Inr (False, lit ''jupyter not found. Install with: pip install jupyter nbconvert''), 0) \<and>
   process_notebooks no_tool_env False [Path (lit ''a.ipynb''), Path (lit ''b.ipynb'')]
       (initial_state False 2 0) =
     process_notebooks no_tool_env False [Path (lit ''b.ipynb'')]
       \<lparr>world = 0,
        stdout = header False 2 @ lit ''  Running a.ipynb... '' @ [cross_mark, newline] @
          lit ''    Error: jupyter not found. Install with: pip install jupyter nbconvert\<newline>'',
        all_passed = False,
        history = [Ran (Path (lit ''a.ipynb''))
          (Inr (False, lit ''jupyter not found. Install with: pip install jupyter nbconvert''))]\<rparr> \<and>
   fst (main no_tool_env [lit ''check_notebooks.py'', lit ''b.ipynb'', lit ''a.ipynb''] 0) = Inr 1 \<and>
   history (snd (main no_tool_env [lit ''check_notebooks.py'', lit ''b.ipynb'', lit ''a.ipynb''] 0)) =
     [Ran (Path (lit ''a.ipynb''))
        (Inr (False, lit ''jupyter not found. Install with: pip install jupyter nbconvert'')),
      Ran (Path (lit ''b.ipynb''))
        (Inr (False, lit ''jupyter not found. Install with: pip install jupyter nbconvert''))]"
proof -
  let ?argv = "[lit ''check_notebooks.py'', lit ''b.ipynb'', lit ''a.ipynb'']"
  let ?msg = "lit ''jupyter not found. Install with: pip install jupyter nbconvert''"
  have h1: "subprocess_run no_tool_env (Path (lit ''a.ipynb''))
      (world (initial_state False 2 (0::nat))) = (Inl FileNotFoundError, 0)"
    by (simp add: no_tool_env_def initial_state_def)
  have h2: "\<forall>q w0. fst (subprocess_run no_tool_env q w0) = Inl FileNotFoundError"
    by (simp add: no_tool_env_def)
  have h3: "lit ''--check'' \<notin> set ?argv" by (rule no_check_b_a)
  have h4: "target_notebooks no_tool_env ?argv 0 = [Path (lit ''b.ipynb''), Path (lit ''a.ipynb'')]"
    by (rule targets_b_a)
  have h5: "encodable no_tool_env cross_mark \<and>
      list_all (encodable no_tool_env) (path_name (Path (lit ''a.ipynb'')))" by simp
  have h6: "target_notebooks no_tool_env ?argv 0 \<noteq> [] \<and> encodable no_tool_env cross_mark \<and>
      (\<forall>q\<in>set (target_notebooks no_tool_env ?argv 0).
         list_all (encodable no_tool_env) (path_name q))"
    by (simp add: h4)
  note inst = missing_tool_is_reported_and_run_continues[OF h1,
      of "[Path (lit ''b.ipynb'')]" ?argv 0]
  from inst have a: "run_notebook no_tool_env (Path (lit ''a.ipynb''))
      (world (initial_state False 2 (0::nat))) = (Inr (False, ?msg), 0)"
    by blast
  from inst h5 have b: "process_notebooks no_tool_env False
      [Path (lit ''a.ipynb''), Path (lit ''b.ipynb'')] (initial_state False 2 0) =
      process_notebooks no_tool_env False [Path (lit ''b.ipynb'')]
        ((initial_state False 2 0)\<lparr>world := 0,
           stdout := stdout (initial_state False 2 (0::nat)) @ lit ''  Running '' @
             path_name (Path (lit ''a.ipynb'')) @ lit ''... '' @
             [cross_mark, newline] @ lit ''    Error: '' @ ?msg @ [newline],
           all_passed := False,
           history := history (initial_state False 2 (0::nat)) @
             [Ran (Path (lit ''a.ipynb'')) (Inr (False, ?msg))]\<rparr>)"
    by blast
  from inst h2 h3 h6 have c: "fst (main no_tool_env ?argv 0) = Inr 1 \<and>
      history (snd (main no_tool_env ?argv 0)) =
        map (\<lambda>q. Ran q (Inr (False, ?msg)))
          (sorted_paths (py312 no_tool_env) (target_notebooks no_tool_env ?argv 0))"
    by blast
  have st: "(initial_state False 2 0)\<lparr>world := 0,
           stdout := stdout (initial_state False 2 (0::nat)) @ lit ''  Running '' @
             path_name (Path (lit ''a.ipynb'')) @ lit ''... '' @
             [cross_mark, newline] @ lit ''    Error: '' @ ?msg @ [newline],
           all_passed := False,
           history := history (initial_state False 2 (0::nat)) @
             [Ran (Path (lit ''a.ipynb'')) (Inr (False, ?msg))]\<rparr> =
      \<lparr>world = 0,
        stdout = header False 2 @ lit ''  Running a.ipynb... '' @ [cross_mark, newline] @
          lit ''    Error: jupyter not found. Install with: pip install jupyter nbconvert\<newline>'',
        all_passed = False,
        history = [Ran (Path (lit ''a.ipynb'')) (Inr (False, ?msg))]\<rparr>"
    by (simp add: initial_state_def name_a) (simp add: lit_def newline_def)
  have w0: "world (initial_state False 2 (0::nat)) = 0" by (simp add: initial_state_def)
  from a b c h1 show ?thesis
    unfolding st w0 h4 sorted_b_a by simp
qed

text \<open>
  Without the condition on the standard output the run is aborted: with the tool
  missing and an output that encodes ASCII only, \<open>run_notebook\<close> returns the failure for
  \<open>a.ipynb\<close>, printing the cross mark raises \<open>UnicodeEncodeError\<close>, the exception
  leaves \<open>main\<close>, and \<open>b.ipynb\<close> is never attempted.
\<close>

theorem ascii_stdout_missing_tool_counterexample:
  "subprocess_run ascii_no_tool_env (Path (lit ''a.ipynb'')) 0 = (Inl FileNotFoundError, 0) \<and>
   subprocess_run ascii_no_tool_env (Path (lit ''b.ipynb'')) 0 = (Inl FileNotFoundError, 0) \<and>
   main ascii_no_tool_env [lit ''check_notebooks.py'', lit ''b.ipynb'', lit ''a.ipynb''] 0 =
     (Inl UnicodeEncodeError,
      \<lparr>world = 0, stdout = lit ''Running 2 notebook(s)...\<newline>\<newline>  Running a.ipynb... '',
       all_passed = False,
       history = [Ran (Path (lit ''a.ipynb''))
         (Inr (False, lit ''jupyter not found. Install with: pip install jupyter nbconvert''))]\<rparr>)"
  using ascii_no_tool_run by (simp add: ascii_no_tool_env_def no_tool_env_def)

end
